theory Spec2Isabelle
  imports Complex_Main
begin

text \<open>
  Three small programs turn an input into commands for a virtual Xbox 360 controller:
  \<^verbatim>\<open>penalty_kick.py\<close> and \<^verbatim>\<open>pose_penalty_kick.py\<close> hold the left stick up and the B button
  for two seconds when a leg landmark of the pose estimator enters a circle, at most once
  per cooldown; \<^verbatim>\<open>xbox.py\<close> maps keys to buttons and sticks. The pose estimator, the
  camera, the keyboard listener and the controller driver are outside the programs; the
  model takes what they deliver as input. Python floats are reals, \<^verbatim>\<open>time.time()\<close> is a
  clock in the state, and a thread is a position in the function it runs.
\<close>

section \<open>The virtual controller sink\<close>

text \<open>
  All three programs drive a \<^verbatim>\<open>vgamepad.VX360Gamepad\<close>. The library is external, so the
  device is modelled by what the programs do with it: the commands they issue, in order.
  A call to the device may raise; which calls do is fixed by the field \<open>faulty\<close>, indexed
  by the number of calls made so far. A call that raises issues nothing.
\<close>

datatype button =
  XUSB_GAMEPAD_X | XUSB_GAMEPAD_A | XUSB_GAMEPAD_B | XUSB_GAMEPAD_Y
| XUSB_GAMEPAD_RIGHT_SHOULDER | XUSB_GAMEPAD_LEFT_SHOULDER
| XUSB_GAMEPAD_START | XUSB_GAMEPAD_BACK

datatype command =
  Left_joystick_float real real
| Right_joystick_float real real
| Press_button button
| Release_button button
| Update

datatype exn =
  DeviceError | IndexError | KeyboardInterrupt | ValueError | OverflowError | TypeError

record vx360 =
  issued :: "command list"
  calls :: nat
  faulty :: "nat \<Rightarrow> bool"

definition call :: "command \<Rightarrow> vx360 \<Rightarrow> exn option \<times> vx360" where
  "call c g =
     (if faulty g (calls g) then (Some DeviceError, g\<lparr>calls := Suc (calls g)\<rparr>)
      else (None, g\<lparr>issued := issued g @ [c], calls := Suc (calls g)\<rparr>))"

text \<open>A straight-line run of device calls: the first one that raises ends the run.\<close>

fun call_seq :: "command list \<Rightarrow> vx360 \<Rightarrow> exn option \<times> vx360" where
  "call_seq [] g = (None, g)"
| "call_seq (c # cs) g =
     (case call c g of
        (Some e, g') \<Rightarrow> (Some e, g')
      | (None, g') \<Rightarrow> call_seq cs g')"

text \<open>A device on which nothing has been issued yet: one that never raises, and any other.\<close>

definition new_gamepad :: "(nat \<Rightarrow> bool) \<Rightarrow> vx360" where
  "new_gamepad f = \<lparr>issued = [], calls = 0, faulty = f\<rparr>"

definition fresh_gamepad :: vx360 where
  "fresh_gamepad = new_gamepad (\<lambda>_. False)"

text \<open>
  What the issued commands leave on the device, by the contract of the sink: presses,
  releases and stick values change the pending report, and \<^verbatim>\<open>update\<close> sends it.
\<close>

record report =
  wButtons :: "button set"
  sThumbL :: "real \<times> real"
  sThumbR :: "real \<times> real"

fun apply_command :: "command \<Rightarrow> report \<times> report \<Rightarrow> report \<times> report" where
  "apply_command (Left_joystick_float vx vy) (pending, sent) = (pending\<lparr>sThumbL := (vx, vy)\<rparr>, sent)"
| "apply_command (Right_joystick_float vx vy) (pending, sent) = (pending\<lparr>sThumbR := (vx, vy)\<rparr>, sent)"
| "apply_command (Press_button b) (pending, sent) =
     (pending\<lparr>wButtons := insert b (wButtons pending)\<rparr>, sent)"
| "apply_command (Release_button b) (pending, sent) =
     (pending\<lparr>wButtons := wButtons pending - {b}\<rparr>, sent)"
| "apply_command Update (pending, sent) = (pending, pending)"

definition neutral :: report where
  "neutral = \<lparr>wButtons = {}, sThumbL = (0, 0), sThumbR = (0, 0)\<rparr>"

definition device_state :: "command list \<Rightarrow> report" where
  "device_state cs = snd (fold apply_command cs (neutral, neutral))"

section \<open>Landmarks, threads and events shared by the two pose programs\<close>

text \<open>
  A pose landmark as the pose estimator returns it. The coordinates are Python floats;
  they are modelled as reals, so no rounding and no NaN.
\<close>

record landmark =
  landmark_x :: real
  landmark_y :: real
  visibility :: real

text \<open>
  The members of \<^verbatim>\<open>mp_pose.PoseLandmark\<close> that the programs name, with the values
  (indices into the landmark list) that the source's comments give.
\<close>

datatype pose_landmark =
  LEFT_HIP | RIGHT_HIP | LEFT_KNEE | RIGHT_KNEE | LEFT_ANKLE | RIGHT_ANKLE
| LEFT_HEEL | RIGHT_HEEL | LEFT_FOOT_INDEX | RIGHT_FOOT_INDEX

fun landmark_value :: "pose_landmark \<Rightarrow> nat" where
  "landmark_value LEFT_HIP = 23"
| "landmark_value RIGHT_HIP = 24"
| "landmark_value LEFT_KNEE = 25"
| "landmark_value RIGHT_KNEE = 26"
| "landmark_value LEFT_ANKLE = 27"
| "landmark_value RIGHT_ANKLE = 28"
| "landmark_value LEFT_HEEL = 29"
| "landmark_value RIGHT_HEEL = 30"
| "landmark_value LEFT_FOOT_INDEX = 31"
| "landmark_value RIGHT_FOOT_INDEX = 32"

fun landmark_name :: "pose_landmark \<Rightarrow> string" where
  "landmark_name LEFT_HIP = ''LEFT_HIP''"
| "landmark_name RIGHT_HIP = ''RIGHT_HIP''"
| "landmark_name LEFT_KNEE = ''LEFT_KNEE''"
| "landmark_name RIGHT_KNEE = ''RIGHT_KNEE''"
| "landmark_name LEFT_ANKLE = ''LEFT_ANKLE''"
| "landmark_name RIGHT_ANKLE = ''RIGHT_ANKLE''"
| "landmark_name LEFT_HEEL = ''LEFT_HEEL''"
| "landmark_name RIGHT_HEEL = ''RIGHT_HEEL''"
| "landmark_name LEFT_FOOT_INDEX = ''LEFT_FOOT_INDEX''"
| "landmark_name RIGHT_FOOT_INDEX = ''RIGHT_FOOT_INDEX''"

text \<open>\<^verbatim>\<open>landmarks[i]\<close>: an index past the end raises.\<close>

definition index :: "'a list \<Rightarrow> nat \<Rightarrow> exn + 'a" where
  "index landmarks i = (if i < length landmarks then Inr (landmarks ! i) else Inl IndexError)"

text \<open>
  Where a thread running \<^verbatim>\<open>execute_penalty_kick\<close> stands: before the guard and before the
  assignment of the flag (the pose detector only), before the press commands, asleep until
  a wake-up time, before the release commands, before each of the two assignments of the
  \<^verbatim>\<open>finally\<close> block, and finished.
\<close>

datatype pc =
  Checking | Setting | Pressing | Holding real | Releasing | Resetting | Stamping | Finished

text \<open>Why a run of the capture loop stopped: it returned, or an exception left it.\<close>

datatype exit = Returned | Raised exn

definition press_commands :: "command list" where
  "press_commands = [Left_joystick_float 0 1, Press_button XUSB_GAMEPAD_B, Update]"

definition release_commands :: "command list" where
  "release_commands = [Left_joystick_float 0 0, Release_button XUSB_GAMEPAD_B, Update]"

section \<open>penalty_kick.py\<close>

text \<open>
  The controller object, with the clock that \<^verbatim>\<open>time.time()\<close> reads (\<open>now\<close>) and the
  threads started so far (\<open>threads\<close>, in the order of their start); \<open>action_thread\<close> is
  the position of the last one.
\<close>

record controller =
  gamepad :: vx360
  circle_center :: "real \<times> real"
  circle_radius :: real
  action_active :: bool
  last_action_time :: real
  action_cooldown :: real
  action_duration :: real
  action_thread :: "nat option"
  threads :: "pc list"
  now :: real

text \<open>
  The constructor. What it takes from outside is the time at which the program starts and
  the device that \<^verbatim>\<open>vg.VX360Gamepad()\<close> gives.
\<close>

definition init_controller :: "real \<Rightarrow> vx360 \<Rightarrow> controller" where
  "init_controller t0 device =
     \<lparr>gamepad = device, circle_center = (0.5, 0.5), circle_radius = 0.15,
      action_active = False, last_action_time = 0, action_cooldown = 3.0,
      action_duration = 2.0, action_thread = None, threads = [], now = t0\<rparr>"

definition is_point_in_circle :: "controller \<Rightarrow> real \<Rightarrow> real \<Rightarrow> bool" where
  "is_point_in_circle self point_x point_y =
     (let dx = point_x - fst (circle_center self);
          dy = point_y - snd (circle_center self);
          distance = sqrt (dx * dx + dy * dy)
      in distance \<le> circle_radius self)"

definition check_leg_detection :: "controller \<Rightarrow> landmark list \<Rightarrow> exn + bool \<times> string option" where
  "check_leg_detection self landmarks =
     (case index landmarks (landmark_value LEFT_KNEE) of
        Inl e \<Rightarrow> Inl e
      | Inr left_knee \<Rightarrow>
     if is_point_in_circle self (landmark_x left_knee) (landmark_y left_knee)
     then Inr (True, Some ''Left Knee'')
     else case index landmarks (landmark_value RIGHT_KNEE) of
        Inl e \<Rightarrow> Inl e
      | Inr right_knee \<Rightarrow>
     if is_point_in_circle self (landmark_x right_knee) (landmark_y right_knee)
     then Inr (True, Some ''Right Knee'')
     else case index landmarks (landmark_value LEFT_ANKLE) of
        Inl e \<Rightarrow> Inl e
      | Inr left_ankle \<Rightarrow>
     if is_point_in_circle self (landmark_x left_ankle) (landmark_y left_ankle)
     then Inr (True, Some ''Left Ankle'')
     else case index landmarks (landmark_value RIGHT_ANKLE) of
        Inl e \<Rightarrow> Inl e
      | Inr right_ankle \<Rightarrow>
     if is_point_in_circle self (landmark_x right_ankle) (landmark_y right_ankle)
     then Inr (True, Some ''Right Ankle'')
     else Inr (False, None))"

text \<open>
  \<^verbatim>\<open>execute_penalty_kick\<close>, run from its first statement to its last with nothing in
  between: \<^verbatim>\<open>time.sleep\<close> moves the clock on by the duration, the other statements take
  no time. A device call that raises inside the \<^verbatim>\<open>try\<close> skips the rest of it; the
  \<^verbatim>\<open>finally\<close> block runs in every case.
\<close>

definition execute_penalty_kick :: "controller \<Rightarrow> controller" where
  "execute_penalty_kick self =
     (let (e1, g1) = call_seq press_commands (gamepad self);
          s1 = self\<lparr>gamepad := g1\<rparr>;
          s3 = (if e1 = None
                then (let s2 = s1\<lparr>now := now s1 + action_duration s1\<rparr>;
                          (e2, g2) = call_seq release_commands (gamepad s2)
                      in s2\<lparr>gamepad := g2\<rparr>)
                else s1);
          s4 = s3\<lparr>action_active := False\<rparr>
      in s4\<lparr>last_action_time := now s4\<rparr>)"

text \<open>
  \<^verbatim>\<open>trigger_penalty_kick\<close>. Starting the thread appends it to \<open>threads\<close>, standing before
  its first statement.
\<close>

definition trigger_penalty_kick :: "controller \<Rightarrow> controller" where
  "trigger_penalty_kick self =
     (let current_time = now self
      in if action_active self then self
         else if current_time - last_action_time self < action_cooldown self then self
         else self\<lparr>action_active := True,
                    action_thread := Some (length (threads self)),
                    threads := threads self @ [Pressing]\<rparr>)"

text \<open>
  The same function as a thread executes it, one step at a time, so that the capture loop
  can run in between. A sleeping thread moves on only once the clock has reached its
  wake-up time.
\<close>

definition thread_pc :: "pc list \<Rightarrow> nat \<Rightarrow> pc" where
  "thread_pc ts i = (if i < length ts then ts ! i else Finished)"

definition worker_step :: "nat \<Rightarrow> controller \<Rightarrow> controller" where
  "worker_step i self =
     (case thread_pc (threads self) i of
        Pressing \<Rightarrow>
          (case call_seq press_commands (gamepad self) of
             (None, g) \<Rightarrow>
               self\<lparr>gamepad := g,
                     threads := (threads self)[i := Holding (now self + action_duration self)]\<rparr>
           | (Some e, g) \<Rightarrow> self\<lparr>gamepad := g, threads := (threads self)[i := Resetting]\<rparr>)
      | Holding t \<Rightarrow>
          (if t \<le> now self then self\<lparr>threads := (threads self)[i := Releasing]\<rparr> else self)
      | Releasing \<Rightarrow>
          self\<lparr>gamepad := snd (call_seq release_commands (gamepad self)),
                threads := (threads self)[i := Resetting]\<rparr>
      | Resetting \<Rightarrow> self\<lparr>action_active := False, threads := (threads self)[i := Stamping]\<rparr>
      | Stamping \<Rightarrow> self\<lparr>last_action_time := now self, threads := (threads self)[i := Finished]\<rparr>
      | _ \<Rightarrow> self)"

definition tick :: "real \<Rightarrow> controller \<Rightarrow> controller" where
  "tick d self = self\<lparr>now := now self + max 0 d\<rparr>"

text \<open>
  One round of the capture loop of \<^verbatim>\<open>start\<close>: the frame read (\<^verbatim>\<open>None\<close> ends the loop),
  the landmarks of the pose estimator if it found a pose, and whether ESC was pressed.
  The result says whether the loop stops, and how.
\<close>

datatype frame = NoFrame | Frame "landmark list option" bool

definition frame_step :: "frame \<Rightarrow> controller \<Rightarrow> exit option \<times> controller" where
  "frame_step f self =
     (case f of
        NoFrame \<Rightarrow> (Some Returned, self)
      | Frame pose_landmarks esc \<Rightarrow>
          (case pose_landmarks of
             None \<Rightarrow> (if esc then Some Returned else None, self)
           | Some landmarks \<Rightarrow>
               (case check_leg_detection self landmarks of
                  Inl e \<Rightarrow> (Some (Raised e), self)
                | Inr (leg_detected, detected_part) \<Rightarrow>
                    (let s1 = (if leg_detected then trigger_penalty_kick self else self)
                     in (if esc then Some Returned else None, s1)))))"

text \<open>
  What happens while the program runs: the capture loop takes a frame, a started thread
  takes a step, time passes, or the user interrupts the program.
\<close>

datatype event = Capture frame | Worker nat | Tick real | Interrupt

text \<open>
  The capture loop over a finite prefix of events; \<open>None\<close> when they end before the loop
  does.
\<close>

fun capture_loop :: "event list \<Rightarrow> controller \<Rightarrow> (exit \<times> controller) option" where
  "capture_loop [] self = None"
| "capture_loop (Capture f # es) self =
     (case frame_step f self of
        (None, s1) \<Rightarrow> capture_loop es s1
      | (Some x, s1) \<Rightarrow> Some (x, s1))"
| "capture_loop (Worker i # es) self = capture_loop es (worker_step i self)"
| "capture_loop (Tick d # es) self = capture_loop es (tick d self)"
| "capture_loop (Interrupt # es) self = Some (Raised KeyboardInterrupt, self)"

text \<open>
  \<^verbatim>\<open>join(timeout)\<close> on a thread: the caller waits, the thread runs, sleeping as long as
  it has to, until it has finished or the timeout has passed.
\<close>

fun run_thread :: "nat \<Rightarrow> real \<Rightarrow> nat \<Rightarrow> controller \<Rightarrow> controller" where
  "run_thread 0 deadline i self = self"
| "run_thread (Suc n) deadline i self =
     (case thread_pc (threads self) i of
        Finished \<Rightarrow> self
      | Holding t \<Rightarrow>
          (if t \<le> deadline
           then run_thread n deadline i (worker_step i (self\<lparr>now := max (now self) t\<rparr>))
           else self\<lparr>now := max (now self) deadline\<rparr>)
      | _ \<Rightarrow> run_thread n deadline i (worker_step i self))"

definition join :: "nat \<Rightarrow> real \<Rightarrow> controller \<Rightarrow> controller" where
  "join i timeout self = run_thread 7 (now self + timeout) i self"

definition cleanup :: "controller \<Rightarrow> controller" where
  "cleanup self =
     (let s1 = (case action_thread self of
                  None \<Rightarrow> self
                | Some i \<Rightarrow>
                    if thread_pc (threads self) i \<noteq> Finished then join i 3.0 self else self)
      in s1\<lparr>gamepad := snd (call_seq release_commands (gamepad s1))\<rparr>)"

text \<open>
  \<^verbatim>\<open>start\<close>: the camera opens or not; the loop; \<^verbatim>\<open>cleanup\<close> after a loop that ended by
  itself. \<^verbatim>\<open>start_penalty_kick_gaming\<close> catches \<^verbatim>\<open>KeyboardInterrupt\<close> and calls
  \<^verbatim>\<open>cleanup\<close> in its \<^verbatim>\<open>finally\<close>, whatever happened.
\<close>

definition start :: "bool \<Rightarrow> event list \<Rightarrow> controller \<Rightarrow> (exit \<times> controller) option" where
  "start opened es self =
     (if \<not> opened then Some (Returned, self)
      else case capture_loop es self of
        None \<Rightarrow> None
      | Some (Returned, s1) \<Rightarrow> Some (Returned, cleanup s1)
      | Some (Raised e, s1) \<Rightarrow> Some (Raised e, s1))"

definition start_penalty_kick_gaming ::
  "real \<Rightarrow> vx360 \<Rightarrow> bool \<Rightarrow> event list \<Rightarrow> (exit \<times> controller) option" where
  "start_penalty_kick_gaming t0 device opened es =
     (case start opened es (init_controller t0 device) of
        None \<Rightarrow> None
      | Some (Returned, s1) \<Rightarrow> Some (Returned, cleanup s1)
      | Some (Raised KeyboardInterrupt, s1) \<Rightarrow> Some (Returned, cleanup s1)
      | Some (Raised e, s1) \<Rightarrow> Some (Raised e, cleanup s1))"

section \<open>pose_penalty_kick.py\<close>

record detector =
  gamepad_pose :: vx360
  circle_radius_pose :: int
  last_kick_time :: real
  cooldown_duration :: real
  kick_duration :: real
  is_kicking :: bool
  touch_threshold :: int
  threads_pose :: "pc list"
  now_pose :: real

definition init_detector :: "real \<Rightarrow> vx360 \<Rightarrow> detector" where
  "init_detector t0 device =
     \<lparr>gamepad_pose = device, circle_radius_pose = 80, last_kick_time = 0,
      cooldown_duration = 5, kick_duration = 2, is_kicking = False,
      touch_threshold = 80 + 20, threads_pose = [], now_pose = t0\<rparr>"

definition calculate_distance :: "int \<times> int \<Rightarrow> int \<times> int \<Rightarrow> real" where
  "calculate_distance point1 point2 =
     sqrt (real_of_int ((fst point1 - fst point2)\<^sup>2 + (snd point1 - snd point2)\<^sup>2))"

text \<open>
  \<^verbatim>\<open>int(v)\<close> on a float: the fractional part is cut off, towards zero. Here and in
  \<open>calculate_distance\<close> the numbers are reals and integers without bounds; what the source
  does at NaN, at the infinities and at integers too large for \<^verbatim>\<open>np.sqrt\<close> is written out
  in the second version of the function, further down.
\<close>

definition py_int :: "real \<Rightarrow> int" where
  "py_int v = (if 0 \<le> v then \<lfloor>v\<rfloor> else \<lceil>v\<rceil>)"

definition leg_landmarks :: "pose_landmark list" where
  "leg_landmarks =
     [LEFT_HIP, RIGHT_HIP, LEFT_KNEE, RIGHT_KNEE, LEFT_ANKLE, RIGHT_ANKLE,
      LEFT_HEEL, RIGHT_HEEL, LEFT_FOOT_INDEX, RIGHT_FOOT_INDEX]"

text \<open>The \<^verbatim>\<open>for\<close> loop of \<^verbatim>\<open>is_foot_touching_circle\<close>, over the landmark ids still to visit.\<close>

fun touching_loop ::
  "detector \<Rightarrow> landmark list \<Rightarrow> int \<Rightarrow> int \<Rightarrow> int \<times> int \<Rightarrow> pose_landmark list \<Rightarrow>
     exn + bool \<times> (int \<times> int) option \<times> string option" where
  "touching_loop self landmarks image_width image_height circle_center_px [] =
     Inr (False, None, None)"
| "touching_loop self landmarks image_width image_height circle_center_px (landmark_id # ids) =
     (if landmark_value landmark_id < length landmarks
      then (case index landmarks (landmark_value landmark_id) of
              Inl e \<Rightarrow> Inl e
            | Inr landmark \<Rightarrow>
                (let x = py_int (landmark_x landmark * of_int image_width);
                     y = py_int (landmark_y landmark * of_int image_height)
                 in if visibility landmark > 0.5
                    then (let distance = calculate_distance (x, y) circle_center_px
                          in if distance \<le> of_int (touch_threshold self)
                             then Inr (True, Some (x, y), Some (landmark_name landmark_id))
                             else touching_loop self landmarks image_width image_height
                                    circle_center_px ids)
                    else touching_loop self landmarks image_width image_height
                           circle_center_px ids))
      else touching_loop self landmarks image_width image_height circle_center_px ids)"

definition is_foot_touching_circle ::
  "detector \<Rightarrow> landmark list \<Rightarrow> int \<Rightarrow> int \<Rightarrow> int \<times> int \<Rightarrow>
     exn + bool \<times> (int \<times> int) option \<times> string option" where
  "is_foot_touching_circle self landmarks image_width image_height circle_center_px =
     touching_loop self landmarks image_width image_height circle_center_px leg_landmarks"

text \<open>
  The same function with the limits of its arithmetic written out. A Python float is a
  finite number, an infinity or NaN. Converting an integer that is too large for a float
  raises \<^verbatim>\<open>OverflowError\<close>; a product too large for a float is an infinity; \<^verbatim>\<open>int\<close> raises
  \<^verbatim>\<open>ValueError\<close> on NaN and \<^verbatim>\<open>OverflowError\<close> on an infinity; \<^verbatim>\<open>np.sqrt\<close> raises \<^verbatim>\<open>TypeError\<close>
  on a Python integer from \<open>2\<^sup>6\<^sup>4\<close> on, which fits no integer type of the library.
  Rounding inside the range of the floats is not modelled.
\<close>

datatype pyfloat = Num real | PlusInf | MinusInf | NaN

record float_landmark =
  float_x :: pyfloat
  float_y :: pyfloat
  float_visibility :: pyfloat

text \<open>
  The least magnitude that rounds to an infinity: halfway between the largest float,
  \<open>2\<^sup>1\<^sup>0\<^sup>2\<^sup>4 - 2\<^sup>9\<^sup>7\<^sup>1\<close>, and \<open>2\<^sup>1\<^sup>0\<^sup>2\<^sup>4\<close>.
\<close>

definition overflow_bound :: real where
  "overflow_bound = 2 ^ 1024 - 2 ^ 970"

definition round_float :: "real \<Rightarrow> pyfloat" where
  "round_float v =
     (if overflow_bound \<le> v then PlusInf
      else if v \<le> - overflow_bound then MinusInf
      else Num v)"

definition float_of_int :: "int \<Rightarrow> exn + real" where
  "float_of_int n =
     (if overflow_bound \<le> \<bar>real_of_int n\<bar> then Inl OverflowError else Inr (real_of_int n))"

text \<open>\<^verbatim>\<open>a * n\<close> for a float \<open>a\<close> and an integer \<open>n\<close>: the integer is converted first.\<close>

definition float_times_int :: "pyfloat \<Rightarrow> int \<Rightarrow> exn + pyfloat" where
  "float_times_int a n =
     (case float_of_int n of
        Inl e \<Rightarrow> Inl e
      | Inr m \<Rightarrow>
          Inr (case a of
                 Num v \<Rightarrow> round_float (v * m)
               | PlusInf \<Rightarrow> (if 0 < m then PlusInf else if m < 0 then MinusInf else NaN)
               | MinusInf \<Rightarrow> (if 0 < m then MinusInf else if m < 0 then PlusInf else NaN)
               | NaN \<Rightarrow> NaN))"

definition int_of_float :: "pyfloat \<Rightarrow> exn + int" where
  "int_of_float a =
     (case a of
        Num v \<Rightarrow> Inr (py_int v)
      | NaN \<Rightarrow> Inl ValueError
      | _ \<Rightarrow> Inl OverflowError)"

text \<open>\<^verbatim>\<open>int(a * n)\<close>.\<close>

definition int_of_product :: "pyfloat \<Rightarrow> int \<Rightarrow> exn + int" where
  "int_of_product a n =
     (case float_times_int a n of
        Inl e \<Rightarrow> Inl e
      | Inr f \<Rightarrow> int_of_float f)"

text \<open>\<^verbatim>\<open>a > r\<close>: false for NaN.\<close>

definition float_gt :: "pyfloat \<Rightarrow> real \<Rightarrow> bool" where
  "float_gt a r = (case a of Num v \<Rightarrow> v > r | PlusInf \<Rightarrow> True | _ \<Rightarrow> False)"

definition calculate_distance_np :: "int \<times> int \<Rightarrow> int \<times> int \<Rightarrow> exn + real" where
  "calculate_distance_np point1 point2 =
     (let n = (fst point1 - fst point2)\<^sup>2 + (snd point1 - snd point2)\<^sup>2
      in if 2 ^ 64 \<le> n then Inl TypeError else Inr (sqrt (real_of_int n)))"

fun touching_loop_raising ::
  "detector \<Rightarrow> float_landmark list \<Rightarrow> int \<Rightarrow> int \<Rightarrow> int \<times> int \<Rightarrow> pose_landmark list \<Rightarrow>
     exn + bool \<times> (int \<times> int) option \<times> string option" where
  "touching_loop_raising self landmarks image_width image_height circle_center_px [] =
     Inr (False, None, None)"
| "touching_loop_raising self landmarks image_width image_height circle_center_px
     (landmark_id # ids) =
     (if landmark_value landmark_id < length landmarks
      then (case index landmarks (landmark_value landmark_id) of
              Inl e \<Rightarrow> Inl e
            | Inr landmark \<Rightarrow>
          (case int_of_product (float_x landmark) image_width of
              Inl e \<Rightarrow> Inl e
            | Inr x \<Rightarrow>
          (case int_of_product (float_y landmark) image_height of
              Inl e \<Rightarrow> Inl e
            | Inr y \<Rightarrow>
                if float_gt (float_visibility landmark) 0.5
                then (case calculate_distance_np (x, y) circle_center_px of
                        Inl e \<Rightarrow> Inl e
                      | Inr distance \<Rightarrow>
                          if distance \<le> of_int (touch_threshold self)
                          then Inr (True, Some (x, y), Some (landmark_name landmark_id))
                          else touching_loop_raising self landmarks image_width image_height
                                 circle_center_px ids)
                else touching_loop_raising self landmarks image_width image_height
                       circle_center_px ids)))
      else touching_loop_raising self landmarks image_width image_height circle_center_px ids)"

definition is_foot_touching_circle_raising ::
  "detector \<Rightarrow> float_landmark list \<Rightarrow> int \<Rightarrow> int \<Rightarrow> int \<times> int \<Rightarrow>
     exn + bool \<times> (int \<times> int) option \<times> string option" where
  "is_foot_touching_circle_raising self landmarks image_width image_height circle_center_px =
     touching_loop_raising self landmarks image_width image_height circle_center_px
       leg_landmarks"

text \<open>
  \<^verbatim>\<open>execute_penalty_kick\<close> of the detector, run from its first statement to its last with
  nothing in between. Here the function itself tests and sets the flag.
\<close>

definition execute_penalty_kick_pose :: "detector \<Rightarrow> detector" where
  "execute_penalty_kick_pose self =
     (if is_kicking self then self
      else
        let s0 = self\<lparr>is_kicking := True\<rparr>;
            (e1, g1) = call_seq press_commands (gamepad_pose s0);
            s1 = s0\<lparr>gamepad_pose := g1\<rparr>;
            s3 = (if e1 = None
                  then (let s2 = s1\<lparr>now_pose := now_pose s1 + kick_duration s1\<rparr>;
                            (e2, g2) = call_seq release_commands (gamepad_pose s2)
                        in s2\<lparr>gamepad_pose := g2\<rparr>)
                  else s1);
            s4 = s3\<lparr>is_kicking := False\<rparr>
        in s4\<lparr>last_kick_time := now_pose s4\<rparr>)"

text \<open>The same function as a thread executes it, one step at a time.\<close>

definition worker_step_pose :: "nat \<Rightarrow> detector \<Rightarrow> detector" where
  "worker_step_pose i self =
     (case thread_pc (threads_pose self) i of
        Checking \<Rightarrow>
          (if is_kicking self then self\<lparr>threads_pose := (threads_pose self)[i := Finished]\<rparr>
           else self\<lparr>threads_pose := (threads_pose self)[i := Setting]\<rparr>)
      | Setting \<Rightarrow> self\<lparr>is_kicking := True, threads_pose := (threads_pose self)[i := Pressing]\<rparr>
      | Pressing \<Rightarrow>
          (case call_seq press_commands (gamepad_pose self) of
             (None, g) \<Rightarrow>
               self\<lparr>gamepad_pose := g,
                     threads_pose :=
                       (threads_pose self)[i := Holding (now_pose self + kick_duration self)]\<rparr>
           | (Some e, g) \<Rightarrow>
               self\<lparr>gamepad_pose := g, threads_pose := (threads_pose self)[i := Resetting]\<rparr>)
      | Holding t \<Rightarrow>
          (if t \<le> now_pose self
           then self\<lparr>threads_pose := (threads_pose self)[i := Releasing]\<rparr> else self)
      | Releasing \<Rightarrow>
          self\<lparr>gamepad_pose := snd (call_seq release_commands (gamepad_pose self)),
                threads_pose := (threads_pose self)[i := Resetting]\<rparr>
      | Resetting \<Rightarrow>
          self\<lparr>is_kicking := False, threads_pose := (threads_pose self)[i := Stamping]\<rparr>
      | Stamping \<Rightarrow>
          self\<lparr>last_kick_time := now_pose self,
                threads_pose := (threads_pose self)[i := Finished]\<rparr>
      | Finished \<Rightarrow> self)"

definition tick_pose :: "real \<Rightarrow> detector \<Rightarrow> detector" where
  "tick_pose d self = self\<lparr>now_pose := now_pose self + max 0 d\<rparr>"

text \<open>
  The part of the loop body of \<^verbatim>\<open>run\<close> that follows a touch: the cooldown and the flag
  decide whether a thread is started.
\<close>

definition kick_if_ready :: "detector \<Rightarrow> detector" where
  "kick_if_ready self =
     (let current_time = now_pose self;
          time_since_last_kick = current_time - last_kick_time self
      in if time_since_last_kick \<ge> cooldown_duration self \<and> \<not> is_kicking self
         then self\<lparr>threads_pose := threads_pose self @ [Checking]\<rparr>
         else self)"

text \<open>
  One round of the loop of \<^verbatim>\<open>run\<close>: the read fails, or it gives a frame of some width
  and height, with the landmarks if a pose was found, and whether \<^verbatim>\<open>q\<close> was pressed.
\<close>

datatype pose_frame = ReadFailed | Read int int "landmark list option" bool

definition frame_step_pose :: "pose_frame \<Rightarrow> detector \<Rightarrow> exit option \<times> detector" where
  "frame_step_pose f self =
     (case f of
        ReadFailed \<Rightarrow> (Some Returned, self)
      | Read image_width image_height pose_landmarks quit \<Rightarrow>
          (let circle_center_px = (image_width div 2, image_height - 100)
           in case pose_landmarks of
                None \<Rightarrow> (if quit then Some Returned else None, self)
              | Some landmarks \<Rightarrow>
                  (case is_foot_touching_circle self landmarks image_width image_height
                          circle_center_px of
                     Inl e \<Rightarrow> (Some (Raised e), self)
                   | Inr (is_touching, touch_point, name) \<Rightarrow>
                       (let s1 = (if is_touching then kick_if_ready self else self)
                        in (if quit then Some Returned else None, s1)))))"

datatype pose_event = Capture_pose pose_frame | Worker_pose nat | Tick_pose real | Interrupt_pose

fun capture_loop_pose :: "pose_event list \<Rightarrow> detector \<Rightarrow> (exit \<times> detector) option" where
  "capture_loop_pose [] self = None"
| "capture_loop_pose (Capture_pose f # es) self =
     (case frame_step_pose f self of
        (None, s1) \<Rightarrow> capture_loop_pose es s1
      | (Some x, s1) \<Rightarrow> Some (x, s1))"
| "capture_loop_pose (Worker_pose i # es) self = capture_loop_pose es (worker_step_pose i self)"
| "capture_loop_pose (Tick_pose d # es) self = capture_loop_pose es (tick_pose d self)"
| "capture_loop_pose (Interrupt_pose # es) self = Some (Raised KeyboardInterrupt, self)"

text \<open>
  \<^verbatim>\<open>run\<close>: every exception of the loop is caught and printed, and the \<^verbatim>\<open>finally\<close> block
  releases the camera and the windows. Nothing there touches the controller.
\<close>

definition run :: "bool \<Rightarrow> pose_event list \<Rightarrow> detector \<Rightarrow> detector option" where
  "run opened es self =
     (if \<not> opened then Some self
      else case capture_loop_pose es self of
        None \<Rightarrow> None
      | Some (x, s1) \<Rightarrow> Some s1)"

definition main_pose :: "real \<Rightarrow> vx360 \<Rightarrow> bool \<Rightarrow> pose_event list \<Rightarrow> detector option" where
  "main_pose t0 device opened es = run opened es (init_detector t0 device)"

section \<open>xbox.py: keyboard to controller\<close>

datatype stick = Left_stick | Right_stick

definition key_mappings :: "string \<rightharpoonup> button" where
  "key_mappings = map_of
     [(''l'', XUSB_GAMEPAD_X),
      (''k'', XUSB_GAMEPAD_A),
      (''j'', XUSB_GAMEPAD_B),
      (''i'', XUSB_GAMEPAD_Y),
      (''space'', XUSB_GAMEPAD_RIGHT_SHOULDER),
      (''shift'', XUSB_GAMEPAD_LEFT_SHOULDER),
      (''enter'', XUSB_GAMEPAD_START),
      (''tab'', XUSB_GAMEPAD_BACK)]"

definition analog_mappings :: "string \<rightharpoonup> stick \<times> int \<times> int" where
  "analog_mappings = map_of
     [(''w'', (Left_stick, 0, 1)),
      (''s'', (Left_stick, 0, -1)),
      (''a'', (Left_stick, -1, 0)),
      (''d'', (Left_stick, 1, 0)),
      (''up'', (Right_stick, 0, 1)),
      (''down'', (Right_stick, 0, -1)),
      (''left'', (Right_stick, -1, 0)),
      (''right'', (Right_stick, 1, 0))]"

record mapper =
  gamepad_xbox :: vx360
  pressed_keys :: "string set"
  running :: bool
  left_stick_x :: real
  left_stick_y :: real
  right_stick_x :: real
  right_stick_y :: real

definition init_mapper :: mapper where
  "init_mapper = \<lparr>gamepad_xbox = fresh_gamepad, pressed_keys = {}, running = True,
     left_stick_x = 0, left_stick_y = 0, right_stick_x = 0, right_stick_y = 0\<rparr>"

text \<open>
  A \<^verbatim>\<open>pynput\<close> key is either a \<^verbatim>\<open>KeyCode\<close>, with its \<^verbatim>\<open>char\<close> attribute (possibly
  \<^verbatim>\<open>None\<close>) and its \<^verbatim>\<open>str\<close>, or a member \<^verbatim>\<open>Key.name\<close> of the enumeration of special
  keys, which has no \<^verbatim>\<open>char\<close> and prints as \<^verbatim>\<open>Key.name\<close>.
\<close>

datatype key = KeyCode "string option" string | Key string

fun str_key :: "key \<Rightarrow> string" where
  "str_key (KeyCode c r) = r"
| "str_key (Key n) = ''Key.'' @ n"

definition lower_char :: "char \<Rightarrow> char" where
  "lower_char c =
     (case map_of (zip ''ABCDEFGHIJKLMNOPQRSTUVWXYZ'' ''abcdefghijklmnopqrstuvwxyz'') c of
        Some d \<Rightarrow> d
      | None \<Rightarrow> c)"

definition lower :: "string \<Rightarrow> string" where
  "lower s = map lower_char s"

text \<open>\<^verbatim>\<open>s.replace('Key.', '')\<close>: every occurrence is dropped, scanning from the left.\<close>

fun replace_Key :: "string \<Rightarrow> string" where
  "replace_Key [] = []"
| "replace_Key (c # cs) =
     (if take 4 (c # cs) = ''Key.'' then replace_Key (drop 3 cs) else c # replace_Key cs)"

fun normalize_key :: "key \<Rightarrow> string option" where
  "normalize_key (KeyCode (Some c) r) =
     (if c \<noteq> [] then Some (lower c) else Some (lower (replace_Key r)))"
| "normalize_key k = Some (lower (replace_Key (str_key k)))"

text \<open>
  One round of the loop of \<^verbatim>\<open>update_analog_sticks\<close>, on the four accumulators
  \<open>(left_x, left_y, right_x, right_y)\<close>. The left-stick branch adds the vertical offset to
  \<open>right_stick_y\<close>, as the source does.
\<close>

fun analog_step :: "string \<Rightarrow> real \<times> real \<times> real \<times> real \<Rightarrow> real \<times> real \<times> real \<times> real" where
  "analog_step key_str (lx, ly, rx, ry) =
     (case analog_mappings key_str of
        None \<Rightarrow> (lx, ly, rx, ry)
      | Some (Left_stick, x_offset, y_offset) \<Rightarrow>
          (lx + of_int x_offset, ly, rx, ry + of_int y_offset)
      | Some (Right_stick, x_offset, y_offset) \<Rightarrow>
          (lx, ly, rx + of_int x_offset, ry + of_int y_offset))"

definition normalize_axis :: "real \<Rightarrow> real" where
  "normalize_axis v = max (-1) (min 1 v)"

definition analog_values :: "string set \<Rightarrow> real \<times> real \<times> real \<times> real" where
  "analog_values keys =
     (case Finite_Set.fold analog_step (0, 0, 0, 0) keys of
        (lx, ly, rx, ry) \<Rightarrow>
          (normalize_axis lx, normalize_axis ly, normalize_axis rx, normalize_axis ry))"

definition update_analog_sticks :: "mapper \<Rightarrow> exn option \<times> mapper" where
  "update_analog_sticks m =
     (case analog_values (pressed_keys m) of
        (lx, ly, rx, ry) \<Rightarrow>
          (let m1 = m\<lparr>left_stick_x := lx, left_stick_y := ly,
                      right_stick_x := rx, right_stick_y := ry\<rparr>;
               (e, g) = call_seq [Left_joystick_float lx ly, Right_joystick_float rx ry]
                          (gamepad_xbox m1)
           in (e, m1\<lparr>gamepad_xbox := g\<rparr>)))"

text \<open>
  \<^verbatim>\<open>on_key_press\<close> returns whether the listener goes on. Its body runs in a
  \<^verbatim>\<open>try\<close>: a device call that raises ends it, keeping what was assigned before.
\<close>

definition on_key_press :: "mapper \<Rightarrow> key \<Rightarrow> bool \<times> mapper" where
  "on_key_press m k =
     (if k = Key ''ctrl_l'' \<or> k = Key ''ctrl_r'' then (True, m)
      else case normalize_key k of
        None \<Rightarrow> (True, m)
      | Some key_str \<Rightarrow>
          if key_str = [] then (True, m)
          else if key_str = ''esc'' then (False, m\<lparr>running := False\<rparr>)
          else
            let m1 = m\<lparr>pressed_keys := insert key_str (pressed_keys m)\<rparr>;
                (e2, m2) =
                  (case key_mappings key_str of
                     Some xbox_button \<Rightarrow>
                       (let (e, g) = call (Press_button xbox_button) (gamepad_xbox m1)
                        in (e, m1\<lparr>gamepad_xbox := g\<rparr>))
                   | None \<Rightarrow> (None, m1))
            in if e2 \<noteq> None then (True, m2)
               else
                 let (e3, m3) =
                       (if analog_mappings key_str \<noteq> None then update_analog_sticks m2
                        else (None, m2))
                 in if e3 \<noteq> None then (True, m3)
                    else (True, m3\<lparr>gamepad_xbox := snd (call Update (gamepad_xbox m3))\<rparr>))"

definition on_key_release :: "mapper \<Rightarrow> key \<Rightarrow> bool \<times> mapper" where
  "on_key_release m k =
     (if k = Key ''ctrl_l'' \<or> k = Key ''ctrl_r'' then (True, m)
      else case normalize_key k of
        None \<Rightarrow> (True, m)
      | Some key_str \<Rightarrow>
          if key_str = [] then (True, m)
          else
            let m1 = m\<lparr>pressed_keys := pressed_keys m - {key_str}\<rparr>;
                (e2, m2) =
                  (case key_mappings key_str of
                     Some xbox_button \<Rightarrow>
                       (let (e, g) = call (Release_button xbox_button) (gamepad_xbox m1)
                        in (e, m1\<lparr>gamepad_xbox := g\<rparr>))
                   | None \<Rightarrow> (None, m1))
            in if e2 \<noteq> None then (True, m2)
               else
                 let (e3, m3) =
                       (if analog_mappings key_str \<noteq> None then update_analog_sticks m2
                        else (None, m2))
                 in if e3 \<noteq> None then (True, m3)
                    else (True, m3\<lparr>gamepad_xbox := snd (call Update (gamepad_xbox m3))\<rparr>))"

definition sticks :: "mapper \<Rightarrow> real \<times> real \<times> real \<times> real" where
  "sticks m = (left_stick_x m, left_stick_y m, right_stick_x m, right_stick_y m)"

section \<open>Notions used to state the properties\<close>



text \<open>
  For the detector: the pixel position of a joint, and the condition under which the loop
  of \<^verbatim>\<open>is_foot_touching_circle\<close> returns at that joint.
\<close>

definition pixel_point :: "landmark list \<Rightarrow> int \<Rightarrow> int \<Rightarrow> pose_landmark \<Rightarrow> int \<times> int" where
  "pixel_point landmarks image_width image_height j =
     (py_int (landmark_x (landmarks ! landmark_value j) * of_int image_width),
      py_int (landmark_y (landmarks ! landmark_value j) * of_int image_height))"

definition touches ::
  "detector \<Rightarrow> landmark list \<Rightarrow> int \<Rightarrow> int \<Rightarrow> int \<times> int \<Rightarrow> pose_landmark \<Rightarrow> bool" where
  "touches self landmarks image_width image_height c j =
     (landmark_value j < length landmarks \<and>
      visibility (landmarks ! landmark_value j) > 0.5 \<and>
      calculate_distance (pixel_point landmarks image_width image_height j) c
        \<le> of_int (touch_threshold self))"

text \<open>
  A thread holds from its start until it has cleared the flag. The states that a run of
  the program passes through are those after any finite sequence of events.
\<close>

fun in_hold :: "pc \<Rightarrow> bool" where
  "in_hold Pressing = True"
| "in_hold (Holding t) = True"
| "in_hold Releasing = True"
| "in_hold Resetting = True"
| "in_hold p = False"

definition holds_in_flight :: "pc list \<Rightarrow> nat" where
  "holds_in_flight ts = length (filter in_hold ts)"

fun apply_event :: "event \<Rightarrow> controller \<Rightarrow> controller" where
  "apply_event (Capture f) self = snd (frame_step f self)"
| "apply_event (Worker i) self = worker_step i self"
| "apply_event (Tick d) self = tick d self"
| "apply_event Interrupt self = self"

fun is_worker :: "event \<Rightarrow> bool" where
  "is_worker (Worker i) = True"
| "is_worker e = False"

fun apply_event_pose :: "pose_event \<Rightarrow> detector \<Rightarrow> detector" where
  "apply_event_pose (Capture_pose f) self = snd (frame_step_pose f self)"
| "apply_event_pose (Worker_pose i) self = worker_step_pose i self"
| "apply_event_pose (Tick_pose d) self = tick_pose d self"
| "apply_event_pose Interrupt_pose self = self"

fun is_worker_pose :: "pose_event \<Rightarrow> bool" where
  "is_worker_pose (Worker_pose i) = True"
| "is_worker_pose e = False"

text \<open>
  A thread of the detector run on its own, sleeping as long as it has to, as
  \<^verbatim>\<open>run_thread\<close> does for the controller.
\<close>

fun run_thread_pose :: "nat \<Rightarrow> nat \<Rightarrow> detector \<Rightarrow> detector" where
  "run_thread_pose 0 i self = self"
| "run_thread_pose (Suc n) i self =
     (case thread_pc (threads_pose self) i of
        Finished \<Rightarrow> self
      | Holding t \<Rightarrow>
          run_thread_pose n i (worker_step_pose i (self\<lparr>now_pose := max (now_pose self) t\<rparr>))
      | _ \<Rightarrow> run_thread_pose n i (worker_step_pose i self))"

text \<open>Landmark lists at which the properties are evaluated.\<close>

definition hidden_hip :: landmark where
  "hidden_hip = \<lparr>landmark_x = 0.5, landmark_y = 19 / 24, visibility = 0.5\<rparr>"

definition unseen_knee :: landmark where
  "unseen_knee = \<lparr>landmark_x = 0.5, landmark_y = 0.5, visibility = 0\<rparr>"

definition at_point :: "real \<Rightarrow> real \<Rightarrow> real \<Rightarrow> landmark" where
  "at_point px py v = \<lparr>landmark_x = px, landmark_y = py, visibility = v\<rparr>"

definition knees_in_circle :: "landmark list" where
  "knees_in_circle =
     (replicate 33 (at_point 0 0 1))[25 := at_point 0.6 0.5 1, 26 := at_point 0.5 0.5 1]"

definition knees_on_spot :: "landmark list" where
  "knees_on_spot =
     (replicate 33 (at_point 0.5 0.5 0))[25 := at_point 0.5 0.75 0.9, 26 := at_point 0.5 (19 / 24) 0.9]"


text \<open>
  The invariant of the flag, and the devices, frames and states at which the properties of
  the timed action are evaluated.
\<close>

definition broken_device :: vx360 where
  "broken_device = new_gamepad (\<lambda>n. n = 1)"

definition flight_inv :: "controller \<Rightarrow> bool" where
  "flight_inv self \<longleftrightarrow> holds_in_flight (threads self) = (if action_active self then 1 else 0)"

definition leg_frame :: frame where
  "leg_frame = Frame (Some knees_in_circle) False"

definition foot_frame :: pose_frame where
  "foot_frame = Read 640 480 (Some knees_on_spot) False"

definition holding_controller :: controller where
  "holding_controller =
     fold apply_event [Capture leg_frame, Worker 0] (init_controller 10 fresh_gamepad)"

definition holding_detector :: detector where
  "holding_detector =
     fold apply_event_pose [Capture_pose foot_frame, Worker_pose 0, Worker_pose 0, Worker_pose 0]
       (init_detector 10 fresh_gamepad)"

definition quit_frame :: pose_frame where
  "quit_frame = Read 640 480 None True"

definition interrupted_controller :: controller where
  "interrupted_controller =
     (init_controller 10 fresh_gamepad)
       \<lparr>gamepad := \<lparr>issued = press_commands @ release_commands @ release_commands,
                    calls = 9, faulty = (\<lambda>_. False)\<rparr>,
        action_active := False, last_action_time := 12, action_thread := Some 0,
        threads := [Finished], now := 12\<rparr>"

text \<open>
  A landmark with real coordinates as a landmark of floats; what it means that the
  arithmetic of one round of the loop of \<^verbatim>\<open>is_foot_touching_circle\<close> raises nothing; float
  landmarks at which the function is evaluated.
\<close>

definition of_landmark :: "landmark \<Rightarrow> float_landmark" where
  "of_landmark l =
     \<lparr>float_x = Num (landmark_x l), float_y = Num (landmark_y l),
      float_visibility = Num (visibility l)\<rparr>"

definition arithmetic_defined ::
  "float_landmark list \<Rightarrow> int \<Rightarrow> int \<Rightarrow> int \<times> int \<Rightarrow> pose_landmark \<Rightarrow> bool" where
  "arithmetic_defined landmarks image_width image_height c j =
     (case int_of_product (float_x (landmarks ! landmark_value j)) image_width of
        Inl e \<Rightarrow> False
      | Inr x \<Rightarrow>
     (case int_of_product (float_y (landmarks ! landmark_value j)) image_height of
        Inl e \<Rightarrow> False
      | Inr y \<Rightarrow>
          float_gt (float_visibility (landmarks ! landmark_value j)) 0.5 \<longrightarrow>
            (x - fst c)\<^sup>2 + (y - snd c)\<^sup>2 < 2 ^ 64))"

definition nan_hip :: float_landmark where
  "nan_hip = \<lparr>float_x = NaN, float_y = Num 0.5, float_visibility = Num 0\<rparr>"

definition far_hip :: float_landmark where
  "far_hip = \<lparr>float_x = Num (10 ^ 10), float_y = Num 0.5, float_visibility = Num 1\<rparr>"

definition near_hip :: float_landmark where
  "near_hip = \<lparr>float_x = Num 0.5, float_y = Num 0.75, float_visibility = Num 0.9\<rparr>"

definition inf_hip :: float_landmark where
  "inf_hip = \<lparr>float_x = Num 0.5, float_y = PlusInf, float_visibility = Num 0\<rparr>"

text \<open>
  Two runs of the detector in which a second frame with the foot on the spot is taken
  before the thread started at the first one has set the flag.
\<close>

definition racing_start :: "pose_event list" where
  "racing_start =
     [Capture_pose foot_frame, Capture_pose foot_frame,
      Worker_pose 0, Worker_pose 1, Worker_pose 0, Worker_pose 1, Worker_pose 0, Worker_pose 1]"

definition overlapping_holds :: "pose_event list" where
  "overlapping_holds =
     [Capture_pose foot_frame, Capture_pose foot_frame,
      Worker_pose 0, Worker_pose 1, Worker_pose 1, Worker_pose 1, Tick_pose 2,
      Worker_pose 1, Worker_pose 1, Worker_pose 0, Worker_pose 0, Worker_pose 1,
      Capture_pose foot_frame, Worker_pose 2, Worker_pose 2, Worker_pose 2]"

section \<open>Properties of the geometric triggers\<close>

lemma int_of_product_Inr_iff:
  "int_of_product a n = Inr x \<longleftrightarrow>
     (\<exists>v. a = Num v \<and> \<bar>real_of_int n\<bar> < overflow_bound \<and> \<bar>v * real_of_int n\<bar> < overflow_bound \<and>
          x = py_int (v * real_of_int n))"
  by (cases a)
     (auto simp: int_of_product_def float_times_int_def float_of_int_def round_float_def
       int_of_float_def abs_if split: if_splits)

lemma int_of_product_no_IndexError: "int_of_product a n \<noteq> Inl IndexError"
  by (cases a)
     (simp_all add: int_of_product_def float_times_int_def float_of_int_def round_float_def
       int_of_float_def)

lemma calculate_distance_np_no_IndexError: "calculate_distance_np p q \<noteq> Inl IndexError"
  by (simp add: calculate_distance_np_def Let_def)

lemma touching_loop_no_IndexError:
  "touching_loop_raising self landmarks w h c ids \<noteq> Inl IndexError"
proof (induction ids)
  case Nil
  then show ?case by simp
next
  case (Cons a ids)
  show ?case
  proof (cases "landmark_value a < length landmarks")
    case False
    with Cons show ?thesis by simp
  next
    case True
    show ?thesis
    proof (cases "int_of_product (float_x (landmarks ! landmark_value a)) w")
      case (Inl e)
      with True int_of_product_no_IndexError[of "float_x (landmarks ! landmark_value a)" w]
      show ?thesis by (simp add: index_def)
    next
      case x: (Inr x)
      show ?thesis
      proof (cases "int_of_product (float_y (landmarks ! landmark_value a)) h")
        case (Inl e)
        with True x int_of_product_no_IndexError[of "float_y (landmarks ! landmark_value a)" h]
        show ?thesis by (simp add: index_def)
      next
        case y: (Inr y)
        show ?thesis
        proof (cases "calculate_distance_np (x, y) c")
          case (Inl e)
          with True x y Cons calculate_distance_np_no_IndexError[of "(x, y)" c]
          show ?thesis by (simp add: index_def)
        next
          case (Inr d)
          with True x y Cons show ?thesis by (simp add: index_def)
        qed
      qed
    qed
  qed
qed

lemma touching_loop_returns:
  "(\<forall>j\<in>set ids. landmark_value j < length landmarks \<longrightarrow>
       arithmetic_defined landmarks w h c j) \<Longrightarrow>
   \<exists>r. touching_loop_raising self landmarks w h c ids = Inr r"
proof (induction ids)
  case Nil
  then show ?case by auto
next
  case (Cons a ids)
  then obtain r where r: "touching_loop_raising self landmarks w h c ids = Inr r" by auto
  show ?case
  proof (cases "landmark_value a < length landmarks")
    case False
    with r show ?thesis by (cases r) auto
  next
    case True
    with Cons.prems have "arithmetic_defined landmarks w h c a" by simp
    with True r show ?thesis
      by (cases r) (auto simp: arithmetic_defined_def index_def calculate_distance_np_def Let_def
          split: sum.splits)
  qed
qed

lemma touching_loop_refines:
  "touching_loop_raising self (map of_landmark landmarks) w h c ids = Inr r \<Longrightarrow>
   touching_loop self landmarks w h c ids = Inr r"
proof (induction ids)
  case Nil
  then show ?case by simp
next
  case (Cons a ids)
  show ?case
  proof (cases "landmark_value a < length landmarks")
    case False
    with Cons show ?thesis by simp
  next
    case True
    with Cons.prems Cons.IH show ?thesis
      by (auto simp: index_def of_landmark_def int_of_product_Inr_iff float_gt_def
          calculate_distance_np_def calculate_distance_def Let_def
          split: sum.splits if_splits)
  qed
qed

lemma small_below_bound: "\<bar>v\<bar> \<le> 2 ^ 64 \<Longrightarrow> \<bar>v\<bar> < overflow_bound"
proof -
  have "(2::real) ^ 64 < 2 ^ 1024 - 2 ^ 970" by simp
  then show "\<bar>v\<bar> \<le> 2 ^ 64 \<Longrightarrow> \<bar>v\<bar> < overflow_bound"
    by (simp add: overflow_bound_def)
qed

lemma int_of_product_small:
  "\<bar>real_of_int n\<bar> \<le> 2 ^ 64 \<Longrightarrow> \<bar>v * real_of_int n\<bar> \<le> 2 ^ 64 \<Longrightarrow>
     int_of_product (Num v) n = Inr (py_int (v * real_of_int n))"
  using small_below_bound[of "real_of_int n"] small_below_bound[of "v * real_of_int n"]
  by (simp add: int_of_product_Inr_iff)

lemma is_foot_touching_circle_refines:
  "is_foot_touching_circle_raising self (map of_landmark landmarks) w h c = Inr r \<Longrightarrow>
   is_foot_touching_circle self landmarks w h c = Inr r"
  unfolding is_foot_touching_circle_raising_def is_foot_touching_circle_def
  by (rule touching_loop_refines)

lemma near_hip_defined:
  "\<forall>j\<in>set leg_landmarks. landmark_value j < length (replicate 24 near_hip) \<longrightarrow>
     arithmetic_defined (replicate 24 near_hip) 640 480 (320, 380) j"
  by (simp add: leg_landmarks_def arithmetic_defined_def near_hip_def int_of_product_small
      py_int_def float_gt_def)

text \<open>
  Claim C10, as amended: \<^verbatim>\<open>is_foot_touching_circle\<close> tests every index against the length
  of the landmark list before it reads, so for a landmark list of any length it reads
  nothing out of bounds and raises no \<^verbatim>\<open>IndexError\<close>. It returns a result whenever the
  arithmetic raises nothing at the leg landmarks that the list holds: the two products are
  finite floats, and for a visible landmark the squared pixel distance is below \<open>2\<^sup>6\<^sup>4\<close>.
\<close>

theorem index_guard_prevents_IndexError:
  "is_foot_touching_circle_raising self landmarks w h c \<noteq> Inl IndexError \<and>
   ((\<forall>j\<in>set leg_landmarks. landmark_value j < length landmarks \<longrightarrow>
        arithmetic_defined landmarks w h c j) \<longrightarrow>
    (\<exists>r. is_foot_touching_circle_raising self landmarks w h c = Inr r))"
  unfolding is_foot_touching_circle_raising_def
  using touching_loop_no_IndexError[of self landmarks w h c leg_landmarks]
    touching_loop_returns[of leg_landmarks landmarks w h c self]
  by blast

theorem index_guard_prevents_IndexError_witness:
  "is_foot_touching_circle_raising (init_detector 0 fresh_gamepad) (replicate 24 near_hip)
     640 480 (320, 380) \<noteq> Inl IndexError \<and>
   (\<exists>r. is_foot_touching_circle_raising (init_detector 0 fresh_gamepad) (replicate 24 near_hip)
          640 480 (320, 380) = Inr r)"
  using index_guard_prevents_IndexError[of "init_detector 0 fresh_gamepad"
      "replicate 24 near_hip" 640 480 "(320, 380)"] near_hip_defined
  by blast

text \<open>
  Claim C10 as stated fails: on a list of 24 landmarks, where only the left hip is within
  the list, the function raises \<^verbatim>\<open>ValueError\<close> for a NaN coordinate and \<^verbatim>\<open>OverflowError\<close>
  for an infinite one, visible or not, and \<^verbatim>\<open>TypeError\<close> for a visible landmark so far away
  that the squared pixel distance reaches \<open>2\<^sup>6\<^sup>4\<close>. It returns no result there.
\<close>

theorem arithmetic_raises:
  "is_foot_touching_circle_raising (init_detector 0 fresh_gamepad) (replicate 24 nan_hip)
     640 480 (320, 380) = Inl ValueError \<and>
   is_foot_touching_circle_raising (init_detector 0 fresh_gamepad) (replicate 24 inf_hip)
     640 480 (320, 380) = Inl OverflowError \<and>
   is_foot_touching_circle_raising (init_detector 0 fresh_gamepad) (replicate 24 far_hip)
     640 480 (320, 380) = Inl TypeError"
  by (simp add: is_foot_touching_circle_raising_def leg_landmarks_def index_def
      nan_hip_def inf_hip_def far_hip_def int_of_product_small py_int_def float_gt_def
      calculate_distance_np_def)
     (simp add: int_of_product_def float_times_int_def float_of_int_def int_of_float_def
      overflow_bound_def)


lemma touching_loop_reported:
  "touching_loop self landmarks w h c ids = Inr (True, p, Some n) \<Longrightarrow>
   \<exists>j\<in>set ids. n = landmark_name j \<and> touches self landmarks w h c j"
  by (induction ids)
     (auto simp: touches_def pixel_point_def index_def Let_def split: if_splits)

lemma landmark_name_inj: "landmark_name a = landmark_name b \<Longrightarrow> a = b"
  by (cases a; cases b) simp_all


lemma check_leg_detection_visibility:
  "check_leg_detection self (map (\<lambda>l. l\<lparr>visibility := v\<rparr>) landmarks) =
   check_leg_detection self landmarks"
  by (simp add: check_leg_detection_def index_def)

lemma is_point_in_circle_iff:
  "0 \<le> circle_radius self \<Longrightarrow>
   is_point_in_circle self px py \<longleftrightarrow>
     (px - fst (circle_center self))\<^sup>2 + (py - snd (circle_center self))\<^sup>2
       \<le> (circle_radius self)\<^sup>2"
proof -
  assume r: "0 \<le> circle_radius self"
  let ?a = "(px - fst (circle_center self))\<^sup>2 + (py - snd (circle_center self))\<^sup>2"
  have "sqrt ?a \<le> circle_radius self \<longleftrightarrow> ?a \<le> (circle_radius self)\<^sup>2"
    using r by (metis real_sqrt_le_iff real_sqrt_abs abs_of_nonneg)
  then show ?thesis
    by (simp add: is_point_in_circle_def Let_def power2_eq_square)
qed

lemma calculate_distance_le_iff:
  "0 \<le> t \<Longrightarrow>
   calculate_distance p q \<le> of_int t \<longleftrightarrow> (fst p - fst q)\<^sup>2 + (snd p - snd q)\<^sup>2 \<le> t\<^sup>2"
proof -
  assume t: "0 \<le> t"
  let ?a = "(fst p - fst q)\<^sup>2 + (snd p - snd q)\<^sup>2"
  have "sqrt (real_of_int ?a) \<le> real_of_int t \<longleftrightarrow> real_of_int ?a \<le> (real_of_int t)\<^sup>2"
    using t by (metis real_sqrt_le_iff real_sqrt_abs abs_of_nonneg of_int_0_le_iff)
  also have "\<dots> \<longleftrightarrow> ?a \<le> t\<^sup>2"
    by (metis of_int_le_iff of_int_power)
  finally show ?thesis by (simp add: calculate_distance_def)
qed

lemma calculate_distance_le_numeral:
  "calculate_distance p q \<le> numeral n \<longleftrightarrow>
     (fst p - fst q)\<^sup>2 + (snd p - snd q)\<^sup>2 \<le> (numeral n)\<^sup>2"
  using calculate_distance_le_iff[of "numeral n" p q] by simp








text \<open>
  Claim C1, as amended: in \<^verbatim>\<open>pose_penalty_kick.py\<close> a landmark whose visibility is at
  most 0.5 is never the one that \<^verbatim>\<open>is_foot_touching_circle\<close> reports, wherever it lies;
  \<^verbatim>\<open>check_leg_detection\<close> of \<^verbatim>\<open>penalty_kick.py\<close> does not read the visibility at all, so
  its result is the same whatever the visibilities are.
\<close>

theorem visibility_threshold:
  "(landmark_value j < length landmarks \<longrightarrow> visibility (landmarks ! landmark_value j) \<le> 0.5 \<longrightarrow>
      is_foot_touching_circle self landmarks w h c \<noteq> Inr (True, p, Some (landmark_name j))) \<and>
   check_leg_detection ctl (map (\<lambda>l. l\<lparr>visibility := v\<rparr>) lms) = check_leg_detection ctl lms"
proof -
  have "is_foot_touching_circle self landmarks w h c \<noteq> Inr (True, p, Some (landmark_name j))"
    if "visibility (landmarks ! landmark_value j) \<le> 0.5"
  proof
    assume "is_foot_touching_circle self landmarks w h c = Inr (True, p, Some (landmark_name j))"
    then obtain j' where "landmark_name j = landmark_name j'"
      and t: "touches self landmarks w h c j'"
      unfolding is_foot_touching_circle_def by (blast dest: touching_loop_reported)
    then have "j' = j" by (simp add: landmark_name_inj)
    with t that show False by (simp add: touches_def)
  qed
  then show ?thesis by (simp add: check_leg_detection_visibility)
qed

theorem visibility_threshold_witness:
  "is_foot_touching_circle (init_detector 0 fresh_gamepad) (replicate 33 hidden_hip) 640 480 (320, 380)
     \<noteq> Inr (True, Some (320, 380), Some ''LEFT_HIP'') \<and>
   check_leg_detection (init_controller 0 fresh_gamepad) (replicate 33 (unseen_knee\<lparr>visibility := 1\<rparr>)) =
     Inr (True, Some ''Left Knee'')"
  using visibility_threshold[of LEFT_HIP "replicate 33 hidden_hip" "init_detector 0 fresh_gamepad" 640 480
      "(320, 380)" "Some (320, 380)" "init_controller 0 fresh_gamepad" 1 "replicate 33 unseen_knee"]
  by (simp add: hidden_hip_def unseen_knee_def check_leg_detection_def index_def
      is_point_in_circle_def init_controller_def)

text \<open>
  Claim C1 as stated fails for \<^verbatim>\<open>penalty_kick.py\<close>: a left knee at the centre of the
  circle with visibility 0 is reported as a match.
\<close>

theorem unseen_knee_triggers:
  "check_leg_detection (init_controller 0 fresh_gamepad) (replicate 33 unseen_knee) =
     Inr (True, Some ''Left Knee'') \<and>
   \<not> visibility (replicate 33 unseen_knee ! landmark_value LEFT_KNEE) > 0.5"
  by (simp add: unseen_knee_def check_leg_detection_def index_def
      is_point_in_circle_def init_controller_def)




section \<open>Properties of the timed action\<close>

lemma execute_penalty_kick_reset:
  "action_active (execute_penalty_kick self) = False"
  "last_action_time (execute_penalty_kick self) = now (execute_penalty_kick self)"
  by (simp_all add: execute_penalty_kick_def Let_def split: prod.splits)

lemma execute_penalty_kick_pose_reset:
  assumes "\<not> is_kicking self"
  shows "is_kicking (execute_penalty_kick_pose self) = False"
    and "last_kick_time (execute_penalty_kick_pose self) = now_pose (execute_penalty_kick_pose self)"
  using assms by (simp_all add: execute_penalty_kick_pose_def Let_def split: prod.splits)

lemma execute_penalty_kick_now:
  "now (execute_penalty_kick self) =
     (if fst (call_seq press_commands (gamepad self)) = None
      then now self + action_duration self else now self)"
  by (simp add: execute_penalty_kick_def Let_def split: prod.splits)

lemma execute_penalty_kick_pose_now:
  "\<not> is_kicking self \<Longrightarrow> now_pose (execute_penalty_kick_pose self) =
     (if fst (call_seq press_commands (gamepad_pose self)) = None
      then now_pose self + kick_duration self else now_pose self)"
  by (simp add: execute_penalty_kick_pose_def Let_def split: prod.splits)

text \<open>
  The two readings of \<^verbatim>\<open>execute_penalty_kick\<close> agree: a thread that runs on its own, step
  by step, leaves the state that the function leaves when it is run in one go.
\<close>

lemma run_thread_7:
  "run_thread 7 d i self = run_thread (Suc (Suc (Suc (Suc (Suc (Suc (Suc 0))))))) d i self"
  by (simp add: eval_nat_numeral)

lemma run_thread_execute:
  assumes "i < length (threads self)" and "threads self ! i = Pressing"
    and "0 \<le> action_duration self" and "now self + action_duration self \<le> deadline"
  shows "run_thread 7 deadline i self =
           (execute_penalty_kick self)\<lparr>threads := (threads self)[i := Finished]\<rparr>"
proof (cases "call_seq press_commands (gamepad self)")
  case (Pair e1 g1)
  show ?thesis
  proof (cases e1)
    case None
    with Pair assms show ?thesis
      by (cases "call_seq release_commands g1")
         (simp add: run_thread_7 worker_step_def thread_pc_def execute_penalty_kick_def
           Let_def max_def)
  next
    case (Some e)
    with Pair assms show ?thesis
      by (simp add: run_thread_7 worker_step_def thread_pc_def execute_penalty_kick_def Let_def)
  qed
qed


lemma run_thread_pose_9:
  "run_thread_pose 9 i self =
     run_thread_pose (Suc (Suc (Suc (Suc (Suc (Suc (Suc (Suc (Suc 0))))))))) i self"
  by (simp add: eval_nat_numeral)

lemma run_thread_pose_execute:
  assumes "i < length (threads_pose self)" and "threads_pose self ! i = Checking"
    and "0 \<le> kick_duration self"
  shows "run_thread_pose 9 i self =
           (execute_penalty_kick_pose self)\<lparr>threads_pose := (threads_pose self)[i := Finished]\<rparr>"
proof (cases "is_kicking self")
  case True
  with assms show ?thesis
    by (simp add: run_thread_pose_9 worker_step_pose_def thread_pc_def execute_penalty_kick_pose_def)
next
  case False
  show ?thesis
  proof (cases "call_seq press_commands (gamepad_pose self)")
    case (Pair e1 g1)
    show ?thesis
    proof (cases e1)
      case None
      with Pair assms False show ?thesis
        by (cases "call_seq release_commands g1")
           (simp add: run_thread_pose_9 worker_step_pose_def thread_pc_def
             execute_penalty_kick_pose_def Let_def max_def)
    next
      case (Some e)
      with Pair assms False show ?thesis
        by (simp add: run_thread_pose_9 worker_step_pose_def thread_pc_def
            execute_penalty_kick_pose_def Let_def)
    qed
  qed
qed


text \<open>
  Claim C5: every execution of the body of \<^verbatim>\<open>execute_penalty_kick\<close>, also one in which a
  device call raises, ends with the flag cleared and with the time of the last action set to
  the time at which the body ends. In the detector the body is what follows the guard, so
  the execution starts with the flag not set.
\<close>

theorem action_always_reset:
  "action_active (execute_penalty_kick self) = False \<and>
   last_action_time (execute_penalty_kick self) = now (execute_penalty_kick self) \<and>
   (\<not> is_kicking det \<longrightarrow>
      is_kicking (execute_penalty_kick_pose det) = False \<and>
      last_kick_time (execute_penalty_kick_pose det) = now_pose (execute_penalty_kick_pose det))"
  by (simp add: execute_penalty_kick_reset execute_penalty_kick_pose_reset)

lemma call_seq_broken:
  "call_seq press_commands broken_device =
     (Some DeviceError, \<lparr>issued = [Left_joystick_float 0 1], calls = 2, faulty = (\<lambda>n. n = 1)\<rparr>)"
  by (simp add: press_commands_def broken_device_def new_gamepad_def call_def)

theorem action_always_reset_witness:
  "fst (call_seq press_commands broken_device) = Some DeviceError \<and>
   \<not> action_active (execute_penalty_kick (init_controller 10 broken_device)) \<and>
   \<not> is_kicking (execute_penalty_kick_pose (init_detector 10 broken_device)) \<and>
   last_kick_time (execute_penalty_kick_pose (init_detector 10 broken_device)) = 10"
  using action_always_reset[of "init_controller 10 broken_device" "init_detector 10 broken_device"]
  by (simp add: call_seq_broken execute_penalty_kick_pose_now) (simp add: init_detector_def call_seq_broken)

text \<open>
  Claim C6: the time of the last action is the time at which the hold ends, not the time of
  the trigger: it is the clock at the end of \<^verbatim>\<open>execute_penalty_kick\<close>, which, when the press
  commands go through, is the time of the start plus the whole hold duration.
\<close>

theorem completion_time_stamped_at_end:
  "last_action_time (execute_penalty_kick self) = now (execute_penalty_kick self) \<and>
   (fst (call_seq press_commands (gamepad self)) = None \<longrightarrow>
      last_action_time (execute_penalty_kick self) = now self + action_duration self) \<and>
   (\<not> is_kicking det \<longrightarrow>
      last_kick_time (execute_penalty_kick_pose det) = now_pose (execute_penalty_kick_pose det) \<and>
      (fst (call_seq press_commands (gamepad_pose det)) = None \<longrightarrow>
         last_kick_time (execute_penalty_kick_pose det) = now_pose det + kick_duration det))"
  by (simp add: execute_penalty_kick_reset execute_penalty_kick_pose_reset
      execute_penalty_kick_now execute_penalty_kick_pose_now)

lemma execute_penalty_kick_keeps:
  "action_cooldown (execute_penalty_kick self) = action_cooldown self"
  "action_duration (execute_penalty_kick self) = action_duration self"
  "threads (execute_penalty_kick self) = threads self"
  by (simp_all add: execute_penalty_kick_def Let_def split: prod.splits)

lemma call_seq_fresh:
  "call_seq press_commands fresh_gamepad =
     (None, \<lparr>issued = press_commands, calls = 3, faulty = (\<lambda>_. False)\<rparr>)"
  by (simp add: press_commands_def fresh_gamepad_def new_gamepad_def call_def)

lemma call_seq_release_healthy:
  "call_seq release_commands \<lparr>issued = cs, calls = n, faulty = (\<lambda>_. False)\<rparr> =
     (None, \<lparr>issued = cs @ release_commands, calls = Suc (Suc (Suc n)), faulty = (\<lambda>_. False)\<rparr>)"
  by (simp add: release_commands_def call_def)

lemma call_seq_press_healthy:
  "call_seq press_commands \<lparr>issued = cs, calls = n, faulty = (\<lambda>_. False)\<rparr> =
     (None, \<lparr>issued = cs @ press_commands, calls = Suc (Suc (Suc n)), faulty = (\<lambda>_. False)\<rparr>)"
  by (simp add: press_commands_def call_def)

lemma trigger_init:
  "trigger_penalty_kick (init_controller 10 fresh_gamepad) =
     (init_controller 10 fresh_gamepad)
       \<lparr>action_active := True, action_thread := Some 0, threads := [Pressing]\<rparr>"
  by (simp add: trigger_penalty_kick_def init_controller_def)

theorem completion_time_stamped_at_end_witness:
  "(let s0 = init_controller 10 fresh_gamepad;
        s1 = execute_penalty_kick (trigger_penalty_kick s0);
        s2 = tick 2 s1
    in now s0 = 10 \<and> last_action_time s1 = 12 \<and> now s2 = 14 \<and>
       action_cooldown s2 = 3 \<and> trigger_penalty_kick s2 = s2) \<and>
   last_kick_time (execute_penalty_kick_pose (init_detector 10 fresh_gamepad)) = 12"
  using completion_time_stamped_at_end[of "trigger_penalty_kick (init_controller 10 fresh_gamepad)"
      "init_detector 10 fresh_gamepad"]
  apply (simp add: trigger_init call_seq_fresh Let_def)
  apply (simp add: init_detector_def init_controller_def call_seq_fresh tick_def
      execute_penalty_kick_now execute_penalty_kick_reset execute_penalty_kick_keeps
      trigger_penalty_kick_def)
  done

lemma trigger_blocked:
  "\<not> action_active self \<Longrightarrow> now self - last_action_time self < action_cooldown self \<Longrightarrow>
     trigger_penalty_kick self = self"
  by (simp add: trigger_penalty_kick_def)

lemma trigger_active: "action_active self \<Longrightarrow> trigger_penalty_kick self = self"
  by (simp add: trigger_penalty_kick_def)

lemma frame_step_no_trigger:
  "trigger_penalty_kick self = self \<Longrightarrow> snd (frame_step f self) = self"
  by (auto simp: frame_step_def Let_def split: frame.splits option.splits sum.splits)

lemma kick_blocked:
  "\<not> is_kicking self \<Longrightarrow> now_pose self - last_kick_time self < cooldown_duration self \<Longrightarrow>
     kick_if_ready self = self"
  by (simp add: kick_if_ready_def Let_def)

lemma kick_active: "is_kicking self \<Longrightarrow> kick_if_ready self = self"
  by (simp add: kick_if_ready_def Let_def)

lemma frame_step_pose_no_kick:
  "kick_if_ready self = self \<Longrightarrow> snd (frame_step_pose f self) = self"
  by (auto simp: frame_step_pose_def Let_def split: pose_frame.splits option.splits sum.splits)

lemma check_knees_in_circle:
  assumes "circle_center self = (0.5, 0.5)" and "circle_radius self = 0.15"
  shows "check_leg_detection self knees_in_circle = Inr (True, Some ''Left Knee'')"
  by (simp add: assms check_leg_detection_def index_def is_point_in_circle_iff knees_in_circle_def
      at_point_def power2_eq_square)

lemma touching_knees_on_spot:
  assumes "touch_threshold self = 100"
  shows "is_foot_touching_circle self knees_on_spot 640 480 (320, 380) =
           Inr (True, Some (320, 360), Some ''LEFT_KNEE'')"
  by (simp add: assms is_foot_touching_circle_def leg_landmarks_def index_def knees_on_spot_def
      at_point_def py_int_def calculate_distance_le_numeral power2_eq_square)

lemma frame_step_leg:
  assumes "circle_center self = (0.5, 0.5)" and "circle_radius self = 0.15"
  shows "frame_step leg_frame self = (None, trigger_penalty_kick self)"
  by (simp add: frame_step_def leg_frame_def check_knees_in_circle[OF assms])

lemma frame_step_foot:
  assumes "touch_threshold self = 100"
  shows "frame_step_pose foot_frame self = (None, kick_if_ready self)"
  by (simp add: frame_step_pose_def foot_frame_def touching_knees_on_spot[OF assms])

text \<open>
  Claim C7: a trigger pulse that arrives while no action is active and less than the
  cooldown has passed since the last completion leaves the whole state as it was: no
  command is issued, no thread is started, flag and time stay.
\<close>

theorem cooldown_blocks_trigger:
  "(\<not> action_active self \<longrightarrow> now self - last_action_time self < action_cooldown self \<longrightarrow>
      trigger_penalty_kick self = self \<and> snd (frame_step f self) = self) \<and>
   (\<not> is_kicking det \<longrightarrow> now_pose det - last_kick_time det < cooldown_duration det \<longrightarrow>
      kick_if_ready det = det \<and> snd (frame_step_pose g det) = det)"
  by (simp add: trigger_blocked frame_step_no_trigger kick_blocked frame_step_pose_no_kick)

theorem cooldown_blocks_trigger_witness:
  "check_leg_detection (init_controller 1 fresh_gamepad) knees_in_circle =
     Inr (True, Some ''Left Knee'') \<and>
   frame_step leg_frame (init_controller 1 fresh_gamepad) =
     (None, init_controller 1 fresh_gamepad) \<and>
   is_foot_touching_circle (init_detector 1 fresh_gamepad) knees_on_spot 640 480 (320, 380) =
     Inr (True, Some (320, 360), Some ''LEFT_KNEE'') \<and>
   frame_step_pose foot_frame (init_detector 1 fresh_gamepad) =
     (None, init_detector 1 fresh_gamepad)"
  using cooldown_blocks_trigger[of "init_controller 1 fresh_gamepad" leg_frame
      "init_detector 1 fresh_gamepad" foot_frame]
  by (simp add: check_knees_in_circle touching_knees_on_spot frame_step_leg frame_step_foot
      init_controller_def init_detector_def)

lemma filter_update_count:
  "i < length ts \<Longrightarrow>
   length (filter P (ts[i := v])) + (if P (ts ! i) then 1 else 0) =
   length (filter P ts) + (if P v then 1 else 0)"
proof (induction ts arbitrary: i)
  case Nil
  then show ?case by simp
next
  case (Cons a ts)
  then show ?case by (cases i) auto
qed

lemma holds_update:
  "i < length ts \<Longrightarrow>
   holds_in_flight (ts[i := v]) + (if in_hold (ts ! i) then 1 else 0) =
   holds_in_flight ts + (if in_hold v then 1 else 0)"
  unfolding holds_in_flight_def by (rule filter_update_count)

lemma flight_inv_init: "flight_inv (init_controller t0 device)"
  by (simp add: flight_inv_def init_controller_def holds_in_flight_def)

lemma flight_inv_trigger: "flight_inv self \<Longrightarrow> flight_inv (trigger_penalty_kick self)"
  by (auto simp: flight_inv_def trigger_penalty_kick_def holds_in_flight_def)

lemma flight_inv_frame: "flight_inv self \<Longrightarrow> flight_inv (snd (frame_step f self))"
  by (auto simp: frame_step_def flight_inv_trigger Let_def
      split: frame.splits option.splits sum.splits)

lemma flight_inv_tick: "flight_inv self \<Longrightarrow> flight_inv (tick d self)"
  by (simp add: flight_inv_def tick_def)

lemma flight_inv_worker:
  assumes "flight_inv self"
  shows "flight_inv (worker_step i self)"
proof (cases "i < length (threads self)")
  case False
  then show ?thesis using assms by (simp add: worker_step_def thread_pc_def)
next
  case True
  note upd = holds_update[OF True]
  have pc: "thread_pc (threads self) i = threads self ! i"
    using True by (simp add: thread_pc_def)
  show ?thesis
  proof (cases "threads self ! i")
    case Pressing
    then show ?thesis
      using assms upd[of "Holding (now self + action_duration self)"] upd[of Resetting]
      by (auto simp: worker_step_def pc flight_inv_def split: prod.splits option.splits)
  next
    case (Holding t)
    then show ?thesis
      using assms upd[of Releasing]
      by (auto simp: worker_step_def pc flight_inv_def)
  next
    case Releasing
    then show ?thesis
      using assms upd[of Resetting]
      by (auto simp: worker_step_def pc flight_inv_def)
  next
    case Resetting
    then show ?thesis
      using assms upd[of Stamping]
      by (auto simp: worker_step_def pc flight_inv_def split: if_splits)
  next
    case Stamping
    then show ?thesis
      using assms upd[of Finished]
      by (auto simp: worker_step_def pc flight_inv_def)
  qed (use assms in \<open>simp_all add: worker_step_def pc\<close>)
qed

lemma flight_inv_event: "flight_inv self \<Longrightarrow> flight_inv (apply_event e self)"
  by (cases e) (simp_all add: flight_inv_frame flight_inv_worker flight_inv_tick)

lemma flight_inv_events: "flight_inv self \<Longrightarrow> flight_inv (fold apply_event es self)"
  by (induction es arbitrary: self) (simp_all add: flight_inv_event)

lemma loop_event_keeps:
  assumes "action_active self" and "\<not> is_worker e"
  shows "threads (apply_event e self) = threads self"
    and "gamepad (apply_event e self) = gamepad self"
    and "action_active (apply_event e self)"
  using assms
  by (cases e; simp add: frame_step_no_trigger trigger_active tick_def)+

lemma loop_events_keep:
  "action_active self \<Longrightarrow> \<forall>e\<in>set es. \<not> is_worker e \<Longrightarrow>
     threads (fold apply_event es self) = threads self \<and>
     gamepad (fold apply_event es self) = gamepad self \<and>
     action_active (fold apply_event es self)"
proof (induction es arbitrary: self)
  case Nil
  then show ?case by simp
next
  case (Cons e es)
  then have "action_active (apply_event e self)" "\<forall>e\<in>set es. \<not> is_worker e"
    by (simp_all add: loop_event_keeps)
  from Cons.IH[OF this] Cons.prems show ?case by (simp add: loop_event_keeps)
qed

lemma loop_event_pose_keeps:
  assumes "is_kicking self" and "\<not> is_worker_pose e"
  shows "threads_pose (apply_event_pose e self) = threads_pose self"
    and "gamepad_pose (apply_event_pose e self) = gamepad_pose self"
    and "is_kicking (apply_event_pose e self)"
  using assms
  by (cases e; simp add: frame_step_pose_no_kick kick_active tick_pose_def)+

lemma loop_events_pose_keep:
  "is_kicking self \<Longrightarrow> \<forall>e\<in>set es. \<not> is_worker_pose e \<Longrightarrow>
     threads_pose (fold apply_event_pose es self) = threads_pose self \<and>
     gamepad_pose (fold apply_event_pose es self) = gamepad_pose self \<and>
     is_kicking (fold apply_event_pose es self)"
proof (induction es arbitrary: self)
  case Nil
  then show ?case by simp
next
  case (Cons e es)
  then have "is_kicking (apply_event_pose e self)" "\<forall>e\<in>set es. \<not> is_worker_pose e"
    by (simp_all add: loop_event_pose_keeps)
  from Cons.IH[OF this] Cons.prems show ?case by (simp add: loop_event_pose_keeps)
qed

text \<open>
  Where the single-flight property holds. In \<^verbatim>\<open>penalty_kick.py\<close>, after any sequence of
  events at most one thread holds, and exactly one while the flag is set. In both programs,
  from any state in which the flag is set, the capture loop, whatever frames it sees and
  however long it runs, starts no thread and issues no command, and the flag stays set
  until a thread clears it; a call of the detector's \<^verbatim>\<open>execute_penalty_kick\<close> that finds the
  flag set does nothing.
\<close>

theorem single_flight:
  "(let s = fold apply_event es (init_controller t0 device)
    in holds_in_flight (threads s) \<le> 1 \<and>
       (action_active s \<longleftrightarrow> holds_in_flight (threads s) = 1)) \<and>
   (action_active self \<longrightarrow> (\<forall>e\<in>set fs. \<not> is_worker e) \<longrightarrow>
      (let s' = fold apply_event fs self
       in threads s' = threads self \<and> gamepad s' = gamepad self \<and> action_active s')) \<and>
   (is_kicking det \<longrightarrow> (\<forall>e\<in>set gs. \<not> is_worker_pose e) \<longrightarrow>
      (let d' = fold apply_event_pose gs det
       in threads_pose d' = threads_pose det \<and> gamepad_pose d' = gamepad_pose det \<and>
          is_kicking d')) \<and>
   (is_kicking det \<longrightarrow> execute_penalty_kick_pose det = det)"
proof -
  have "flight_inv (fold apply_event es (init_controller t0 device))"
    by (rule flight_inv_events[OF flight_inv_init])
  then have 1: "let s = fold apply_event es (init_controller t0 device)
    in holds_in_flight (threads s) \<le> 1 \<and>
       (action_active s \<longleftrightarrow> holds_in_flight (threads s) = 1)"
    by (simp add: flight_inv_def Let_def)
  show ?thesis
    using 1 loop_events_keep[of self fs] loop_events_pose_keep[of det gs]
    by (simp add: Let_def execute_penalty_kick_pose_def)
qed

lemma holding_controller_eq:
  "holding_controller =
     (init_controller 10 fresh_gamepad)
       \<lparr>gamepad := \<lparr>issued = press_commands, calls = 3, faulty = (\<lambda>_. False)\<rparr>,
        action_active := True, action_thread := Some 0, threads := [Holding 12]\<rparr>"
  by (simp add: holding_controller_def frame_step_leg init_controller_def
      trigger_penalty_kick_def worker_step_def thread_pc_def call_seq_fresh)

lemma holding_detector_eq:
  "holding_detector =
     (init_detector 10 fresh_gamepad)
       \<lparr>gamepad_pose := \<lparr>issued = press_commands, calls = 3, faulty = (\<lambda>_. False)\<rparr>,
        is_kicking := True, threads_pose := [Holding 12]\<rparr>"
  by (simp add: holding_detector_def frame_step_foot init_detector_def
      kick_if_ready_def worker_step_pose_def thread_pc_def call_seq_fresh)

theorem single_flight_witness:
  "action_active holding_controller \<and>
   holds_in_flight (threads holding_controller) = 1 \<and>
   (let s' = fold apply_event [Capture leg_frame, Tick 1, Capture leg_frame] holding_controller
    in threads s' = [Holding 12] \<and> issued (gamepad s') = press_commands) \<and>
   is_kicking holding_detector \<and>
   (let d' = fold apply_event_pose [Capture_pose foot_frame, Tick_pose 1, Capture_pose foot_frame]
               holding_detector
    in threads_pose d' = [Holding 12] \<and> issued (gamepad_pose d') = press_commands) \<and>
   execute_penalty_kick_pose holding_detector = holding_detector"
  using single_flight[of "[Capture leg_frame, Worker 0]" 10 fresh_gamepad holding_controller
      "[Capture leg_frame, Tick 1, Capture leg_frame]" holding_detector
      "[Capture_pose foot_frame, Tick_pose 1, Capture_pose foot_frame]"]
  unfolding holding_controller_def[symmetric]
  by (simp add: Let_def) (simp add: holding_controller_eq holding_detector_eq)

lemma racing_start_state:
  "fold apply_event_pose racing_start (init_detector 10 fresh_gamepad) =
     (init_detector 10 fresh_gamepad)
       \<lparr>gamepad_pose := \<lparr>issued = press_commands @ press_commands, calls = 6,
                         faulty = (\<lambda>_. False)\<rparr>,
        is_kicking := True, threads_pose := [Holding 12, Holding 12]\<rparr>"
  by (simp add: racing_start_def frame_step_foot init_detector_def kick_if_ready_def
      worker_step_pose_def thread_pc_def fresh_gamepad_def new_gamepad_def
      call_seq_press_healthy)

lemma overlapping_holds_state:
  "fold apply_event_pose overlapping_holds (init_detector 10 fresh_gamepad) =
     (init_detector 10 fresh_gamepad)
       \<lparr>gamepad_pose :=
          \<lparr>issued = press_commands @ release_commands @ press_commands @ press_commands,
           calls = 12, faulty = (\<lambda>_. False)\<rparr>,
        is_kicking := True, threads_pose := [Holding 14, Stamping, Holding 14],
        now_pose := 12\<rparr>"
  by (simp add: overlapping_holds_def frame_step_foot init_detector_def kick_if_ready_def
      worker_step_pose_def thread_pc_def fresh_gamepad_def new_gamepad_def tick_pose_def
      call_seq_press_healthy call_seq_release_healthy)

lemma overlapping_holds_before_frame:
  "fold apply_event_pose (take 12 overlapping_holds) (init_detector 10 fresh_gamepad) =
     (init_detector 10 fresh_gamepad)
       \<lparr>gamepad_pose :=
          \<lparr>issued = press_commands @ release_commands @ press_commands,
           calls = 9, faulty = (\<lambda>_. False)\<rparr>,
        is_kicking := False, threads_pose := [Holding 14, Stamping], now_pose := 12\<rparr>"
  by (simp add: overlapping_holds_def frame_step_foot init_detector_def kick_if_ready_def
      worker_step_pose_def thread_pc_def fresh_gamepad_def new_gamepad_def tick_pose_def
      call_seq_press_healthy call_seq_release_healthy)

text \<open>
  Claim C2 says that at most one hold is in flight and that a trigger pulse during a hold
  starts no second thread and issues no second press. \<^verbatim>\<open>pose_penalty_kick.py\<close> sets the flag
  inside the thread, after the thread has been started. When a second frame with the foot
  on the spot is taken before that, two threads hold at once and the press commands are
  issued twice with no release in between; and when one of two such threads has finished
  while the other holds, the flag is clear during a hold, and the next frame starts a third
  thread, which presses again.
\<close>

theorem two_holds_in_flight:
  "threads_pose (fold apply_event_pose racing_start (init_detector 10 fresh_gamepad)) =
     [Holding 12, Holding 12] \<and>
   issued (gamepad_pose (fold apply_event_pose racing_start (init_detector 10 fresh_gamepad))) =
     press_commands @ press_commands \<and>
   holds_in_flight
     (threads_pose (fold apply_event_pose racing_start (init_detector 10 fresh_gamepad))) = 2 \<and>
   threads_pose
     (fold apply_event_pose (take 12 overlapping_holds) (init_detector 10 fresh_gamepad)) =
     [Holding 14, Stamping] \<and>
   \<not> is_kicking
     (fold apply_event_pose (take 12 overlapping_holds) (init_detector 10 fresh_gamepad)) \<and>
   threads_pose
     (fold apply_event_pose (take 13 overlapping_holds) (init_detector 10 fresh_gamepad)) =
     [Holding 14, Stamping, Checking] \<and>
   threads_pose (fold apply_event_pose overlapping_holds (init_detector 10 fresh_gamepad)) =
     [Holding 14, Stamping, Holding 14] \<and>
   issued (gamepad_pose
     (fold apply_event_pose overlapping_holds (init_detector 10 fresh_gamepad))) =
     press_commands @ release_commands @ press_commands @ press_commands"
proof -
  have "take 13 overlapping_holds = take 12 overlapping_holds @ [Capture_pose foot_frame]"
    by (simp add: overlapping_holds_def)
  then have "threads_pose
     (fold apply_event_pose (take 13 overlapping_holds) (init_detector 10 fresh_gamepad)) =
     [Holding 14, Stamping, Checking]"
    by (simp add: overlapping_holds_before_frame)
       (simp add: frame_step_foot init_detector_def kick_if_ready_def)
  then show ?thesis
    by (simp add: racing_start_state overlapping_holds_state overlapping_holds_before_frame
        holds_in_flight_def)
qed

lemma call_healthy:
  "\<forall>n. \<not> faulty g n \<Longrightarrow> call c g = (None, g\<lparr>issued := issued g @ [c], calls := Suc (calls g)\<rparr>)"
  by (simp add: call_def)

lemma call_seq_healthy:
  "\<forall>n. \<not> faulty g n \<Longrightarrow>
     fst (call_seq cs g) = None \<and> issued (snd (call_seq cs g)) = issued g @ cs \<and>
     faulty (snd (call_seq cs g)) = faulty g"
  by (induction cs arbitrary: g) (simp_all add: call_healthy)

lemma call_faulty: "faulty (snd (call c g)) = faulty g"
  by (simp add: call_def)

lemma call_seq_faulty: "faulty (snd (call_seq cs g)) = faulty g"
proof (induction cs arbitrary: g)
  case Nil
  then show ?case by simp
next
  case (Cons c cs)
  then show ?case
    using call_faulty[of c g] by (cases "call c g") (auto split: option.splits)
qed

lemma worker_step_faulty: "faulty (gamepad (worker_step i self)) = faulty (gamepad self)"
  using call_seq_faulty[of press_commands "gamepad self"]
  by (cases "call_seq press_commands (gamepad self)")
     (auto simp: worker_step_def call_seq_faulty split: pc.splits option.splits)

lemma run_thread_faulty: "faulty (gamepad (run_thread n d i self)) = faulty (gamepad self)"
  by (induction n d i self rule: run_thread.induct)
     (auto simp: worker_step_faulty split: pc.splits)

lemma trigger_gamepad: "gamepad (trigger_penalty_kick self) = gamepad self"
  by (simp add: trigger_penalty_kick_def)

lemma frame_step_gamepad: "gamepad (snd (frame_step f self)) = gamepad self"
  by (auto simp: frame_step_def trigger_gamepad Let_def split: frame.splits option.splits sum.splits)

lemma apply_event_faulty: "faulty (gamepad (apply_event e self)) = faulty (gamepad self)"
  by (cases e) (simp_all add: frame_step_gamepad worker_step_faulty tick_def)

lemma capture_loop_faulty:
  "capture_loop es self = Some (x, s) \<Longrightarrow> faulty (gamepad s) = faulty (gamepad self)"
proof (induction es arbitrary: self)
  case Nil
  then show ?case by simp
next
  case (Cons e es)
  show ?case
  proof (cases e)
    case (Capture f)
    show ?thesis
    proof (cases "fst (frame_step f self)")
      case None
      with Cons.prems Capture have "capture_loop es (snd (frame_step f self)) = Some (x, s)"
        by (simp split: prod.splits)
      from Cons.IH[OF this] show ?thesis by (simp add: frame_step_gamepad)
    next
      case (Some y)
      with Cons.prems Capture have "s = snd (frame_step f self)"
        by (auto split: prod.splits)
      then show ?thesis by (simp add: frame_step_gamepad)
    qed
  next
    case (Worker i)
    with Cons.prems have "capture_loop es (worker_step i self) = Some (x, s)" by simp
    from Cons.IH[OF this] show ?thesis by (simp add: worker_step_faulty)
  next
    case (Tick d)
    with Cons.prems have "capture_loop es (tick d self) = Some (x, s)" by simp
    from Cons.IH[OF this] show ?thesis by (simp add: tick_def)
  next
    case Interrupt
    with Cons.prems show ?thesis by simp
  qed
qed

lemma cleanup_faulty: "faulty (gamepad (cleanup self)) = faulty (gamepad self)"
  by (simp add: cleanup_def join_def call_seq_faulty run_thread_faulty Let_def split: option.splits)

lemma cleanup_releases:
  assumes "\<forall>n. \<not> faulty (gamepad self) n"
  shows "\<exists>pre. issued (gamepad (cleanup self)) = pre @ release_commands"
proof -
  define s1 where "s1 = (case action_thread self of
                  None \<Rightarrow> self
                | Some i \<Rightarrow>
                    if thread_pc (threads self) i \<noteq> Finished then join i 3.0 self else self)"
  have "faulty (gamepad s1) = faulty (gamepad self)"
    by (simp add: s1_def join_def run_thread_faulty split: option.splits)
  with assms have "\<forall>n. \<not> faulty (gamepad s1) n" by simp
  from call_seq_healthy[OF this, of release_commands]
  have "issued (gamepad (cleanup self)) = issued (gamepad s1) @ release_commands"
    by (simp add: cleanup_def s1_def Let_def)
  then show ?thesis by blast
qed

lemma device_state_released:
  "XUSB_GAMEPAD_B \<notin> wButtons (device_state (pre @ release_commands)) \<and>
   sThumbL (device_state (pre @ release_commands)) = (0, 0)"
  by (cases "fold apply_command pre (neutral, neutral)")
     (simp add: device_state_def release_commands_def)

lemma gaming_ends_with_cleanup:
  assumes "start_penalty_kick_gaming t0 device opened es = Some (x, s)"
  shows "\<exists>s1. s = cleanup s1 \<and> faulty (gamepad s1) = faulty device"
proof -
  let ?s0 = "init_controller t0 device"
  have f0: "faulty (gamepad ?s0) = faulty device" by (simp add: init_controller_def)
  from assms obtain y s1 where st: "start opened es ?s0 = Some (y, s1)" and s: "s = cleanup s1"
    by (auto simp: start_penalty_kick_gaming_def split: option.splits exit.splits exn.splits)
  have "faulty (gamepad s1) = faulty device"
  proof (cases opened)
    case False
    with st f0 show ?thesis by (simp add: start_def)
  next
    case True
    with st obtain z s2 where l: "capture_loop es ?s0 = Some (z, s2)"
      and "s1 = s2 \<or> s1 = cleanup s2"
      by (auto simp: start_def split: option.splits exit.splits)
    with capture_loop_faulty[OF l] f0 show ?thesis by (auto simp: cleanup_faulty)
  qed
  with s show ?thesis by blast
qed

text \<open>
  Claim C4, as amended: in \<^verbatim>\<open>penalty_kick.py\<close>, whenever the program returns, be it after
  the loop ended by itself, after the camera did not open, after an interrupt or after
  another exception, \<^verbatim>\<open>cleanup\<close> has run last. On a device that does not raise, the last
  commands issued are then the stick reset, the release of B and the update; B is not
  pressed and the left stick is at rest.
\<close>

theorem cleanup_releases_controller:
  assumes "start_penalty_kick_gaming t0 device opened es = Some (x, s)"
  shows "(\<exists>s1. s = cleanup s1) \<and>
         ((\<forall>n. \<not> faulty device n) \<longrightarrow>
            (\<exists>pre. issued (gamepad s) = pre @ release_commands) \<and>
            XUSB_GAMEPAD_B \<notin> wButtons (device_state (issued (gamepad s))) \<and>
            sThumbL (device_state (issued (gamepad s))) = (0, 0))"
proof -
  from gaming_ends_with_cleanup[OF assms] obtain s1
    where s1: "s = cleanup s1" "faulty (gamepad s1) = faulty device" by blast
  have "(\<exists>pre. issued (gamepad s) = pre @ release_commands) \<and>
        XUSB_GAMEPAD_B \<notin> wButtons (device_state (issued (gamepad s))) \<and>
        sThumbL (device_state (issued (gamepad s))) = (0, 0)"
    if "\<forall>n. \<not> faulty device n"
  proof -
    from cleanup_releases[of s1] s1 that
    obtain pre where "issued (gamepad s) = pre @ release_commands" by auto
    then show ?thesis using device_state_released[of pre] by auto
  qed
  with s1(1) show ?thesis by blast
qed

lemma join_holding:
  "join 0 3 holding_controller =
     (init_controller 10 fresh_gamepad)
       \<lparr>gamepad := \<lparr>issued = press_commands @ release_commands,
                    calls = 6, faulty = (\<lambda>_. False)\<rparr>,
        action_active := False, last_action_time := 12, action_thread := Some 0,
        threads := [Finished], now := 12\<rparr>"
  by (simp add: join_def run_thread_7 holding_controller_eq init_controller_def
      worker_step_def thread_pc_def call_seq_release_healthy)

lemma cleanup_holding: "cleanup holding_controller = interrupted_controller"
proof -
  have "action_thread holding_controller = Some 0"
    and "thread_pc (threads holding_controller) 0 \<noteq> Finished"
    by (simp_all add: holding_controller_eq init_controller_def thread_pc_def)
  then have "cleanup holding_controller =
      (join 0 3.0 holding_controller)
        \<lparr>gamepad := snd (call_seq release_commands (gamepad (join 0 3.0 holding_controller)))\<rparr>"
    by (simp add: cleanup_def Let_def)
  then show ?thesis
    by (simp add: join_holding interrupted_controller_def call_seq_release_healthy
        init_controller_def)
qed

lemma loop_interrupted:
  "capture_loop [Capture leg_frame, Worker 0, Interrupt] (init_controller 10 fresh_gamepad) =
     Some (Raised KeyboardInterrupt, holding_controller)"
  by (simp add: holding_controller_def frame_step_leg init_controller_def)

lemma gaming_interrupted:
  "start_penalty_kick_gaming 10 fresh_gamepad True [Capture leg_frame, Worker 0, Interrupt] =
     Some (Returned, interrupted_controller)"
  by (simp add: start_penalty_kick_gaming_def start_def loop_interrupted cleanup_holding
      del: capture_loop.simps)

theorem cleanup_releases_controller_witness:
  "start_penalty_kick_gaming 10 fresh_gamepad True [Capture leg_frame, Worker 0, Interrupt] =
     Some (Returned, interrupted_controller) \<and>
   issued (gamepad interrupted_controller) =
     press_commands @ release_commands @ release_commands \<and>
   XUSB_GAMEPAD_B \<notin> wButtons (device_state (issued (gamepad interrupted_controller)))"
proof -
  have "\<forall>n. \<not> faulty fresh_gamepad n"
    by (simp add: fresh_gamepad_def new_gamepad_def)
  with cleanup_releases_controller[OF gaming_interrupted] show ?thesis
    by (simp add: gaming_interrupted) (simp add: interrupted_controller_def)
qed

lemma loop_quit:
  "capture_loop_pose
     [Capture_pose foot_frame, Worker_pose 0, Worker_pose 0, Worker_pose 0, Capture_pose quit_frame]
     (init_detector 10 fresh_gamepad) = Some (Returned, holding_detector)"
proof -
  have "frame_step_pose quit_frame holding_detector = (Some Returned, holding_detector)"
    by (simp add: frame_step_pose_def quit_frame_def)
  then show ?thesis
    by (simp add: holding_detector_def frame_step_foot init_detector_def)
qed

lemma device_state_pressed:
  "wButtons (device_state press_commands) = {XUSB_GAMEPAD_B}"
  by (simp add: device_state_def press_commands_def neutral_def)

text \<open>
  Claim C4 as stated fails for \<^verbatim>\<open>pose_penalty_kick.py\<close>: when \<^verbatim>\<open>q\<close> is pressed while a
  thread holds, \<^verbatim>\<open>run\<close> returns without any release command, and B stays pressed.
\<close>

theorem quit_during_hold_leaves_button_pressed:
  "main_pose 10 fresh_gamepad True
     [Capture_pose foot_frame, Worker_pose 0, Worker_pose 0, Worker_pose 0, Capture_pose quit_frame] =
     Some holding_detector \<and>
   issued (gamepad_pose holding_detector) = press_commands \<and>
   XUSB_GAMEPAD_B \<in> wButtons (device_state (issued (gamepad_pose holding_detector)))"
  by (simp add: main_pose_def run_def loop_quit device_state_pressed del: capture_loop_pose.simps)
     (simp add: holding_detector_eq device_state_pressed)

section \<open>Properties of xbox.py\<close>

lemma analog_commute: "comp_fun_commute_on UNIV analog_step"
  by (auto simp: comp_fun_commute_on_def fun_eq_iff split: option.splits stick.splits prod.splits)

lemma analog_fold_single: "Finite_Set.fold analog_step z {k} = analog_step k z"
  using comp_fun_commute_on.fold_insert[OF analog_commute, of k "{}" z] by simp

lemma analog_values_w: "analog_values {''w''} = (0, 0, 0, 1)"
  by (simp add: analog_values_def analog_fold_single analog_mappings_def normalize_axis_def)

lemma analog_dom:
  "analog_mappings ks \<noteq> None \<Longrightarrow>
     ks \<in> {''w'', ''s'', ''a'', ''d'', ''up'', ''down'', ''left'', ''right''}"
  by (simp add: analog_mappings_def split: if_splits)

lemma analog_not_button:
  assumes "analog_mappings ks \<noteq> None"
  shows "key_mappings ks = None" and "ks \<noteq> []" and "ks \<noteq> ''esc''"
  using analog_dom[OF assms] by (auto simp: key_mappings_def)

lemma analog_not_ctrl:
  assumes "normalize_key k = Some ks" and "analog_mappings ks \<noteq> None"
  shows "k \<noteq> Key ''ctrl_l''" and "k \<noteq> Key ''ctrl_r''"
  using assms by (auto simp: lower_def lower_char_def analog_mappings_def)

lemma update_analog_sticks_fields:
  "pressed_keys (snd (update_analog_sticks m)) = pressed_keys m"
  "sticks (snd (update_analog_sticks m)) = analog_values (pressed_keys m)"
  by (auto simp: update_analog_sticks_def sticks_def Let_def split: prod.splits)

lemma on_key_press_analog:
  assumes "normalize_key k = Some ks" and "analog_mappings ks \<noteq> None"
  shows "pressed_keys (snd (on_key_press m k)) = insert ks (pressed_keys m)"
    and "sticks (snd (on_key_press m k)) = analog_values (insert ks (pressed_keys m))"
proof -
  let ?m1 = "m\<lparr>pressed_keys := insert ks (pressed_keys m)\<rparr>"
  have eq: "snd (on_key_press m k) =
      (case update_analog_sticks ?m1 of
         (e3, m3) \<Rightarrow> if e3 \<noteq> None then m3
           else m3\<lparr>gamepad_xbox := snd (call Update (gamepad_xbox m3))\<rparr>)"
    using assms analog_not_button[OF assms(2)] analog_not_ctrl[OF assms]
    by (simp add: on_key_press_def Let_def split: prod.splits)
  have p: "pressed_keys (snd (update_analog_sticks ?m1)) = insert ks (pressed_keys m)"
    by (simp add: update_analog_sticks_fields)
  have s: "sticks (snd (update_analog_sticks ?m1)) = analog_values (insert ks (pressed_keys m))"
    by (simp add: update_analog_sticks_fields)
  show "pressed_keys (snd (on_key_press m k)) = insert ks (pressed_keys m)"
    using p by (cases "update_analog_sticks ?m1") (auto simp: eq)
  show "sticks (snd (on_key_press m k)) = analog_values (insert ks (pressed_keys m))"
    using s by (cases "update_analog_sticks ?m1") (auto simp: eq sticks_def)
qed

text \<open>
  Claim C3 says that with exactly \<^verbatim>\<open>w\<close> held the left stick is \<open>(0, 1)\<close> and the right
  stick stays at \<open>(0, 0)\<close>. The code does the opposite: from the initial mapper, pressing
  \<^verbatim>\<open>w\<close> leaves the left stick at \<open>(0, 0)\<close> and moves the right stick to \<open>(0, 1)\<close>, and
  these are the values sent to the device.
\<close>

theorem w_alone_moves_right_stick:
  "(let m = snd (on_key_press init_mapper (KeyCode (Some ''w'') ''w''))
    in pressed_keys m = {''w''} \<and>
       (left_stick_x m, left_stick_y m) = (0, 0) \<and>
       (right_stick_x m, right_stick_y m) = (0, 1) \<and>
       issued (gamepad_xbox m) =
         [Left_joystick_float 0 0, Right_joystick_float 0 1, Update])"
  by (simp add: on_key_press_def lower_def lower_char_def key_mappings_def
      analog_mappings_def update_analog_sticks_def analog_values_w init_mapper_def
      fresh_gamepad_def new_gamepad_def call_def Let_def)

text \<open>
  Claim C9: a press of an analog-mapped key that is already held leaves the set of held
  keys unchanged, and the four stick values are those recomputed from that unchanged set;
  pressing the same key twice gives the same held keys and the same four stick values as
  pressing it once. This holds whether or not the device calls raise.
\<close>

theorem on_key_press_repeat:
  assumes "normalize_key k = Some ks" and "analog_mappings ks \<noteq> None"
  shows "(ks \<in> pressed_keys m \<longrightarrow>
            pressed_keys (snd (on_key_press m k)) = pressed_keys m \<and>
            sticks (snd (on_key_press m k)) = analog_values (pressed_keys m)) \<and>
         (let m1 = snd (on_key_press m k); m2 = snd (on_key_press m1 k)
          in pressed_keys m2 = pressed_keys m1 \<and> sticks m2 = sticks m1)"
  by (simp add: on_key_press_analog[OF assms] insert_absorb Let_def)

theorem on_key_press_repeat_witness:
  "pressed_keys (snd (on_key_press (init_mapper\<lparr>pressed_keys := {''w''}\<rparr>)
       (KeyCode (Some ''w'') ''w''))) = {''w''} \<and>
   sticks (snd (on_key_press (init_mapper\<lparr>pressed_keys := {''w''}\<rparr>)
       (KeyCode (Some ''w'') ''w''))) = (0, 0, 0, 1)"
  using on_key_press_repeat[of "KeyCode (Some ''w'') ''w''" "''w''"
      "init_mapper\<lparr>pressed_keys := {''w''}\<rparr>"]
  by (simp add: lower_def lower_char_def analog_mappings_def analog_values_w)

end
